theory Spec2Isabelle
  imports Complex_Main
begin

section \<open>Python floats\<close>

text \<open>
  A Python float is an IEEE-754 binary64 number. It is embedded as the real number it
  denotes, and every arithmetic operator of the source as the exact operation followed by
  \<open>float64\<close>, the rounding to the nearest number with a significand of 53 bits, a tie
  going to the even significand. The exponent is not bounded here: the embedding is
  binary64 as long as no result overflows or is subnormal (a magnitude of 0, or from
  \<open>2^-1022\<close> to below \<open>2^1024\<close>); infinities and NaN have no counterpart.
\<close>

definition round_half_even :: "real \<Rightarrow> int" where
  "round_half_even x =
     (let f = \<lfloor>x\<rfloor>; d = x - of_int f
      in if d < 1 / 2 then f
         else if 1 / 2 < d then f + 1
         else if even f then f else f + 1)"

text \<open>
  Rounding of a positive number: it is scaled by powers of 2 into the range from \<open>2^52\<close> to
  below \<open>2^53\<close>, rounded to an integer there, and scaled back.
\<close>

function round_pos :: "real \<Rightarrow> real" where
  "round_pos x =
     (if x \<le> 0 then 0
      else if x < 2 ^ 52 then round_pos (2 * x) / 2
      else if 2 ^ 53 \<le> x then 2 * round_pos (x / 2)
      else of_int (round_half_even x))"
  by pat_completeness auto
termination
proof (relation "measure (\<lambda>x. nat \<bar>\<lfloor>log 2 x\<rfloor> - 52\<bar>)")
  show "wf (measure (\<lambda>x. nat \<bar>\<lfloor>log 2 x\<rfloor> - 52\<bar>))" by simp
next
  fix x :: real
  assume a: "\<not> x \<le> 0" "x < 2 ^ 52"
  then have "log 2 x < 52" by (subst log_less_iff) auto
  then have "\<lfloor>log 2 x\<rfloor> \<le> 51" by linarith
  moreover have "\<lfloor>log 2 (2 * x)\<rfloor> = \<lfloor>log 2 x\<rfloor> + 1"
    using a by (simp add: log_mult)
  ultimately show "(2 * x, x) \<in> measure (\<lambda>x. nat \<bar>\<lfloor>log 2 x\<rfloor> - 52\<bar>)"
    by simp
next
  fix x :: real
  assume a: "\<not> x \<le> 0" "\<not> x < 2 ^ 52" "2 ^ 53 \<le> x"
  then have "53 \<le> log 2 x" by (subst le_log_iff) auto
  then have "53 \<le> \<lfloor>log 2 x\<rfloor>" by linarith
  moreover have "\<lfloor>log 2 (x / 2)\<rfloor> = \<lfloor>log 2 x\<rfloor> - 1"
    using a by (simp add: log_divide)
  ultimately show "(x / 2, x) \<in> measure (\<lambda>x. nat \<bar>\<lfloor>log 2 x\<rfloor> - 52\<bar>)"
    by simp
qed

declare round_pos.simps [simp del]

definition float64 :: "real \<Rightarrow> real" where
  "float64 x = (if x < 0 then - round_pos (- x) else round_pos x)"

text \<open>The operators \<open>+\<close>, \<open>-\<close>, \<open>*\<close> and \<open>/\<close> on floats.\<close>

definition fadd :: "real \<Rightarrow> real \<Rightarrow> real" where
  "fadd x y = float64 (x + y)"

definition fsub :: "real \<Rightarrow> real \<Rightarrow> real" where
  "fsub x y = float64 (x - y)"

definition fmul :: "real \<Rightarrow> real \<Rightarrow> real" where
  "fmul x y = float64 (x * y)"

definition fdiv :: "real \<Rightarrow> real \<Rightarrow> real" where
  "fdiv x y = float64 (x / y)"

text \<open>An \<open>int\<close> operand of a float operator is converted to the nearest float.\<close>

definition float_of_int :: "int \<Rightarrow> real" where
  "float_of_int k = float64 (of_int k)"

text \<open>
  \<open>round(x, 2)\<close> of a float: the exact value of \<open>x\<close> is rounded to the nearest multiple of
  0.01, a tie going to the even multiple, and the float nearest to that decimal is returned.
\<close>

definition round2 :: "real \<Rightarrow> real" where
  "round2 x = float64 (of_int (round_half_even (x * 100)) / 100)"

text \<open>
  Plain summation in list order, as CPython's \<open>sum\<close> does up to version 3.11. Where the
  source calls a summation routine (\<open>Series.sum\<close> of pandas, the builtin \<open>sum\<close>), the
  routine is an argument of the function embedded: the order in which it adds, and with
  it the rounding of the result, belongs to the library. Only its value on no element at
  all, 0, is fixed.
\<close>

definition sequential_sum :: "real list \<Rightarrow> real" where
  "sequential_sum xs = foldl fadd 0 xs"

definition sum_routine :: "(real list \<Rightarrow> real) \<Rightarrow> real list \<Rightarrow> real" where
  "sum_routine add_all xs = (if xs = [] then 0 else add_all xs)"

text \<open>
  Tolerance: \<open>near k x y\<close> says that \<open>x\<close> is \<open>y\<close> up to \<open>k\<close> roundings, each of a relative
  error of at most \<open>2^-53\<close>.
\<close>

definition round_down :: real where
  "round_down = 1 - 1 / 2 ^ 53"

definition round_up :: real where
  "round_up = 1 + 1 / 2 ^ 53"

definition near :: "nat \<Rightarrow> real \<Rightarrow> real \<Rightarrow> bool" where
  "near k x y = (round_down ^ k * y \<le> x \<and> x \<le> round_up ^ k * y)"

section \<open>Dividend-frequency inference (modulo1\_ingenieria\_datos.py)\<close>

text \<open>
  Conventions of the embedding.
  \<^item> Currency amounts are Python floats: reals with the float operations of the first
    section.
  \<^item> A pandas timestamp is its 64-bit count of nanoseconds since the epoch, read as \<open>int\<close>.
  \<^item> \<open>pd.Timestamp.now()\<close> is an explicit argument of the function that reads the clock.
  \<^item> A Python exception is a value of \<open>py_exception\<close>; a block that may raise has a sum type
    with the exception on the left.
\<close>

datatype py_exception = UpstreamError | AttributeError | KeyError

type_synonym timestamp = int

text \<open>
  \<open>ticker.dividends\<close>: a pandas Series. The upstream feed normally delivers a Series over a
  \<open>DatetimeIndex\<close> (with or without a time zone); a Series over any other index has no
  \<open>.tz\<close> attribute, only a length.
\<close>

datatype series =
    DatetimeSeries "string option" "(timestamp \<times> real) list"
  | OtherSeries nat

fun empty_series :: "series \<Rightarrow> bool" where
  "empty_series (DatetimeSeries tz rows) = (rows = [])"
| "empty_series (OtherSeries n) = (n = 0)"

text \<open>\<open>dividends.index.tz\<close>: raises \<open>AttributeError\<close> on an index that is not a DatetimeIndex.\<close>

fun index_tz :: "series \<Rightarrow> py_exception + string option" where
  "index_tz (DatetimeSeries tz rows) = Inr tz"
| "index_tz (OtherSeries n) = Inl AttributeError"

text \<open>
  \<open>index.tz_convert('UTC').tz_localize(None)\<close>: a time-zone aware index stores UTC
  nanoseconds, so the conversion keeps every stored value and drops the zone.
\<close>

fun tz_convert_UTC_localize_None :: "series \<Rightarrow> series" where
  "tz_convert_UTC_localize_None (DatetimeSeries tz rows) = DatetimeSeries None rows"
| "tz_convert_UTC_localize_None (OtherSeries n) = OtherSeries n"

fun rows_of :: "series \<Rightarrow> (timestamp \<times> real) list" where
  "rows_of (DatetimeSeries tz rows) = rows"
| "rows_of (OtherSeries n) = []"

definition Timedelta_days :: "int \<Rightarrow> int" where
  "Timedelta_days d = d * 86400000000000"

text \<open>\<open>DatetimeIndex.normalize()\<close>: the time of day is set to midnight.\<close>

definition normalize :: "timestamp \<Rightarrow> timestamp" where
  "normalize t = t - t mod 86400000000000"

text \<open>
  \<open>Timestamp.month\<close>: the month (1 to 12) of the proleptic Gregorian date of a timestamp,
  computed from the number of days since 1970-01-01.
\<close>

definition month_of_days :: "int \<Rightarrow> int" where
  "month_of_days d =
     (let z = d + 719468;
          era = z div 146097;
          doe = z - era * 146097;
          yoe = (doe - doe div 1460 + doe div 36524 - doe div 146096) div 365;
          doy = doe - (365 * yoe + yoe div 4 - yoe div 100);
          mp = (5 * doy + 2) div 153
      in if mp < 10 then mp + 3 else mp - 9)"

definition month :: "timestamp \<Rightarrow> int" where
  "month t = month_of_days (t div 86400000000000)"

text \<open>\<open>dividends[dividends.index >= cutoff_date]\<close>\<close>

definition since :: "timestamp \<Rightarrow> (timestamp \<times> real) list \<Rightarrow> (timestamp \<times> real) list" where
  "since cutoff_date rows = filter (\<lambda>r. fst r \<ge> cutoff_date) rows"

record ticker_info =
  info_symbol :: bool
  info_longName :: "string option"
  info_sector :: "string option"
  info_industry :: "string option"
  info_currentPrice :: "real option"
  info_regularMarketPrice :: "real option"
  info_marketCap :: "int option"

text \<open>
  A \<open>yf.Ticker\<close> object, as far as the analyzer reads it: the \<open>info\<close> dictionary
  (\<open>info_symbol\<close> says whether it has the key \<open>'symbol'\<close>; an absent key is \<open>None\<close>), the
  \<open>Close\<close> column of \<open>history(period="1d")\<close> and the \<open>dividends\<close> Series. Each
  access may raise.
\<close>

record ticker =
  info :: "py_exception + ticker_info"
  history_1d_Close :: "py_exception + real list"
  dividends :: "py_exception + series"

text \<open>
  The body of the \<open>try\<close> block of \<open>analyze_dividend_frequency\<close>. The cutoff comes from
  \<open>pd.Timestamp.now()\<close>, which has no time zone, so that line 105 leaves it as it is.
\<close>

definition analyze_dividend_frequency_try :: "timestamp \<Rightarrow> ticker \<Rightarrow> py_exception + string" where
  "analyze_dividend_frequency_try now tk =
     (case dividends tk of
        Inl e \<Rightarrow> Inl e
      | Inr dividends0 \<Rightarrow>
          if empty_series dividends0 then Inr ''sin_dividendos''
          else
            let cutoff_date = now - Timedelta_days 365 in
            (case index_tz dividends0 of
               Inl e \<Rightarrow> Inl e
             | Inr tz \<Rightarrow>
                 let dividends1 =
                       (if tz \<noteq> None then tz_convert_UTC_localize_None dividends0
                        else dividends0);
                     recent_dividends = since cutoff_date (rows_of dividends1)
                 in
                   if recent_dividends = [] then Inr ''sin_dividendos''
                   else
                     let unique_payment_dates = remdups (map (normalize \<circ> fst) recent_dividends);
                         payment_count = length unique_payment_dates
                     in
                       if payment_count \<ge> 10 then Inr ''mensual''
                       else if payment_count \<ge> 3 then Inr ''trimestral''
                       else Inr ''irregular''))"

text \<open>\<open>except Exception\<close>: every exception of the block becomes the label \<open>'irregular'\<close>.\<close>

definition analyze_dividend_frequency :: "timestamp \<Rightarrow> ticker \<Rightarrow> string" where
  "analyze_dividend_frequency now tk =
     (case analyze_dividend_frequency_try now tk of
        Inl e \<Rightarrow> ''irregular''
      | Inr label \<Rightarrow> label)"


subsection \<open>Asset metrics\<close>

text \<open>\<open>str.upper()\<close> on ASCII letters.\<close>

definition upper_char :: "char \<Rightarrow> char" where
  "upper_char c =
     (if 97 \<le> (of_char c :: nat) \<and> (of_char c :: nat) \<le> 122
      then char_of ((of_char c :: nat) - 32) else c)"

definition upper :: "string \<Rightarrow> string" where
  "upper s = map upper_char s"

text \<open>
  \<open>get_ticker_data\<close>: the argument \<open>yf\<close> is \<open>yf.Ticker\<close>, the market-data collaborator.
  \<open>not info or 'symbol' not in info\<close> holds exactly when the key \<open>'symbol'\<close> is absent.
\<close>

definition get_ticker_data :: "(string \<Rightarrow> py_exception + ticker) \<Rightarrow> string \<Rightarrow> ticker option" where
  "get_ticker_data yf symbol =
     (case yf (upper symbol) of
        Inl e \<Rightarrow> None
      | Inr tk \<Rightarrow>
          (case info tk of
             Inl e \<Rightarrow> None
           | Inr i \<Rightarrow> if \<not> info_symbol i then None else Some tk))"

text \<open>Truth value of an optional number, and \<open>a or b\<close> on optional numbers.\<close>

definition truthy :: "real option \<Rightarrow> bool" where
  "truthy v = (case v of None \<Rightarrow> False | Some x \<Rightarrow> x \<noteq> 0)"

definition py_or :: "real option \<Rightarrow> real option \<Rightarrow> real option" where
  "py_or a b = (if truthy a then a else b)"

record metrics =
  symbol :: string
  name :: string
  sector :: string
  industry :: string
  current_price :: real
  annual_dividend :: real
  dividend_yield :: real
  dividend_frequency :: string
  dividend_payment_months :: "int list"
  market_cap :: int

text \<open>\<open>info.get(key, default)\<close>\<close>

definition get_or :: "'a option \<Rightarrow> 'a \<Rightarrow> 'a" where
  "get_or v d = (case v of None \<Rightarrow> d | Some x \<Rightarrow> x)"

text \<open>
  The part of \<open>get_asset_metrics\<close> after the price is known (lines 167 to 216). The clock
  is read once inside \<open>analyze_dividend_frequency\<close> (\<open>now_frequency\<close>) and once more for the
  annual sum (\<open>now_annual\<close>). \<open>series_sum\<close> is the summation of pandas'
  \<open>Series.sum\<close>. The entry \<open>'last_updated'\<close>, a rendering of the wall clock, is left out
  of the record.
\<close>

definition build_metrics ::
  "(real list \<Rightarrow> real) \<Rightarrow> timestamp \<Rightarrow> timestamp \<Rightarrow> string \<Rightarrow> ticker \<Rightarrow> ticker_info \<Rightarrow> real
     \<Rightarrow> py_exception + metrics" where
  "build_metrics series_sum now_frequency now_annual symbol0 tk i price =
     (let frequency = analyze_dividend_frequency now_frequency tk in
      case dividends tk of
        Inl e \<Rightarrow> Inl e
      | Inr dividends0 \<Rightarrow>
          (let finish = (\<lambda>annual yield months.
                 \<lparr>symbol = upper symbol0,
                  name = get_or (info_longName i) symbol0,
                  sector = get_or (info_sector i) ''N/A'',
                  industry = get_or (info_industry i) ''N/A'',
                  current_price = price,
                  annual_dividend = round2 annual,
                  dividend_yield = round2 yield,
                  dividend_frequency = frequency,
                  dividend_payment_months = months,
                  market_cap = get_or (info_marketCap i) 0\<rparr>)
           in
             if \<not> empty_series dividends0 then
               let cutoff_date = now_annual - Timedelta_days 365 in
               (case index_tz dividends0 of
                  Inl e \<Rightarrow> Inl e
                | Inr tz \<Rightarrow>
                    let dividends1 =
                          (if tz \<noteq> None then tz_convert_UTC_localize_None dividends0
                           else dividends0);
                        recent_dividends = since cutoff_date (rows_of dividends1);
                        annual = sum_routine series_sum (map snd recent_dividends);
                        payment_months =
                          (if recent_dividends \<noteq> []
                           then sort (remdups (map (month \<circ> fst) recent_dividends))
                           else []);
                        yield = (if price \<noteq> 0 then fmul (fdiv annual price) 100 else 0)
                    in Inr (finish annual yield payment_months))
             else Inr (finish 0 0 [])))"

text \<open>The body of the \<open>try\<close> block of \<open>get_asset_metrics\<close>; \<open>Inr None\<close> is \<open>return None\<close>.\<close>

definition get_asset_metrics_try ::
  "(real list \<Rightarrow> real) \<Rightarrow> timestamp \<Rightarrow> timestamp \<Rightarrow> string \<Rightarrow> ticker
     \<Rightarrow> py_exception + metrics option" where
  "get_asset_metrics_try series_sum now_frequency now_annual symbol0 tk =
     (case info tk of
        Inl e \<Rightarrow> Inl e
      | Inr i \<Rightarrow>
          (case history_1d_Close tk of
             Inl e \<Rightarrow> Inl e
           | Inr hist \<Rightarrow>
               let price0 =
                     (if hist = [] then
                        (let cp = py_or (info_currentPrice i) (info_regularMarketPrice i)
                         in if truthy cp then cp else None)
                      else Some (last hist))
               in
                 (case price0 of
                    None \<Rightarrow> Inr None
                  | Some price \<Rightarrow>
                      (case build_metrics series_sum now_frequency now_annual symbol0 tk i
                              price of
                         Inl e \<Rightarrow> Inl e
                       | Inr m \<Rightarrow> Inr (Some m)))))"

definition get_asset_metrics ::
  "(real list \<Rightarrow> real) \<Rightarrow> timestamp \<Rightarrow> timestamp \<Rightarrow> (string \<Rightarrow> py_exception + ticker) \<Rightarrow> string
     \<Rightarrow> metrics option" where
  "get_asset_metrics series_sum now_frequency now_annual yf symbol0 =
     (case get_ticker_data yf symbol0 of
        None \<Rightarrow> None
      | Some tk \<Rightarrow>
          (case get_asset_metrics_try series_sum now_frequency now_annual symbol0 tk of
             Inl e \<Rightarrow> None
           | Inr r \<Rightarrow> r))"

subsection \<open>The classification rule in the words of the specification\<close>

text \<open>
  The events of the trailing window, and the number of distinct calendar dates among them
  (same-day payments counted once).
\<close>

definition window_events :: "timestamp \<Rightarrow> (timestamp \<times> real) list \<Rightarrow> (timestamp \<times> real) list" where
  "window_events as_of events = filter (\<lambda>ev. as_of - Timedelta_days 365 \<le> fst ev) events"

definition spec_payment_count :: "timestamp \<Rightarrow> (timestamp \<times> real) list \<Rightarrow> nat" where
  "spec_payment_count as_of events = card (normalize ` fst ` set (window_events as_of events))"


definition spec_cadence :: "nat \<Rightarrow> string" where
  "spec_cadence payment_count =
     (if payment_count \<ge> 10 then ''mensual''
      else if payment_count \<ge> 3 then ''trimestral''
      else if payment_count \<ge> 1 then ''irregular''
      else ''sin_dividendos'')"

subsection \<open>Example histories\<close>

text \<open>
  A feed with one ticker, \<open>KO\<close>, priced at 50, whose history is given. Timestamps of the
  examples are midnights: day \<open>d\<close> is \<open>d * 86400000000000\<close>.
\<close>

definition example_info :: ticker_info where
  "example_info =
     \<lparr>info_symbol = True, info_longName = Some ''Coca-Cola'', info_sector = None,
      info_industry = None, info_currentPrice = None, info_regularMarketPrice = None,
      info_marketCap = None\<rparr>"

definition example_ticker :: "py_exception + series \<Rightarrow> ticker" where
  "example_ticker d = \<lparr>info = Inr example_info, history_1d_Close = Inr [50], dividends = d\<rparr>"

definition example_feed :: "py_exception + series \<Rightarrow> string \<Rightarrow> py_exception + ticker" where
  "example_feed d s = (if s = ''KO'' then Inr (example_ticker d) else Inl UpstreamError)"

definition day :: "int \<Rightarrow> timestamp" where
  "day d = d * 86400000000000"

text \<open>Four quarterly payments of 0.50 on 2024-03-15, 2024-06-15, 2024-09-15 and 2024-12-15.\<close>

definition quarterly_history :: series where
  "quarterly_history =
     DatetimeSeries None
       [(day 19797, 1 / 2), (day 19889, 1 / 2), (day 19981, 1 / 2), (day 20072, 1 / 2)]"

text \<open>One payment of 0.333 on 2024-06-15.\<close>

definition odd_history :: series where
  "odd_history =
     DatetimeSeries (Some ''America/New_York'') [(day 19889, float64 (333 / 1000))]"

text \<open>Two payments, of 0.1 on 2024-03-15 and of 0.375 on 2024-06-15.\<close>

definition half_cent_history :: series where
  "half_cent_history =
     DatetimeSeries None [(day 19797, float64 (1 / 10)), (day 19889, 3 / 8)]"


text \<open>The as-of time of the examples: 2025-01-01, midnight.\<close>

definition example_now :: timestamp where
  "example_now = day 20089"

text \<open>
  One payment of 0.50 on 2024-01-02 at midnight, and two readings of the clock one
  millisecond apart, 0.3 ms before and 0.7 ms after midnight of 2025-01-01: the payment
  is 365 days old between the two.
\<close>

definition race_history :: series where
  "race_history = DatetimeSeries None [(day 19724, 1 / 2)]"

definition first_reading :: timestamp where
  "first_reading = day 20089 - 300000"

definition second_reading :: timestamp where
  "second_reading = day 20089 + 700000"

section \<open>Portfolio dividend calendar (app.py, modulo2\_persistencia\_datos.py)\<close>

subsection \<open>Strings\<close>

text \<open>
  Python strings are embedded as ASCII strings. \<open>str.isspace\<close>, \<open>str.strip\<close>,
  \<open>str.isdigit\<close>, \<open>int\<close> and \<open>str.split(',')\<close> on them:
\<close>

definition isspace :: "char \<Rightarrow> bool" where
  "isspace c =
     (let n = (of_char c :: nat) in (9 \<le> n \<and> n \<le> 13) \<or> (28 \<le> n \<and> n \<le> 32))"

definition strip :: "string \<Rightarrow> string" where
  "strip s = rev (dropWhile isspace (rev (dropWhile isspace s)))"

definition digit_char :: "char \<Rightarrow> bool" where
  "digit_char c = (48 \<le> (of_char c :: nat) \<and> (of_char c :: nat) \<le> 57)"

definition isdigit :: "string \<Rightarrow> bool" where
  "isdigit s = (s \<noteq> [] \<and> list_all digit_char s)"

definition int_of_digits :: "string \<Rightarrow> int" where
  "int_of_digits s = foldl (\<lambda>n c. 10 * n + (int (of_char c) - 48)) 0 s"

fun split_comma :: "string \<Rightarrow> string list" where
  "split_comma [] = [] # []"
| "split_comma (c # cs) =
     (if c = CHR '','' then [] # split_comma cs
      else (case split_comma cs of
              [] \<Rightarrow> [c] # []
            | w # ws \<Rightarrow> (c # w) # ws))"

subsection \<open>Stored payment months\<close>

text \<open>The loop of \<open>_parse_payment_months\<close> over the comma-separated pieces.\<close>

fun parse_loop :: "string list \<Rightarrow> int list \<Rightarrow> int list" where
  "parse_loop [] months = months"
| "parse_loop (m # ms) months =
     (let m_clean = strip m in
      if isdigit m_clean then
        (let month_num = int_of_digits m_clean in
         if 1 \<le> month_num \<and> month_num \<le> 12
         then parse_loop ms (months @ [month_num])
         else parse_loop ms months)
      else parse_loop ms months)"

text \<open>
  \<open>_parse_payment_months\<close> on a string. Nothing in its \<open>try\<close> block raises on an
  ASCII string, so the \<open>except\<close> branch has no counterpart here.
\<close>

definition parse_payment_months :: "string \<Rightarrow> int list" where
  "parse_payment_months months_str =
     (if months_str = [] \<or> months_str = ''nan'' \<or> strip months_str = [] then []
      else sort (remdups (parse_loop (split_comma (strip months_str)) [])))"

text \<open>An element of a Python list of months: an \<open>int\<close>, a \<open>str\<close>, or anything else.\<close>

datatype py_value = PyInt int | PyStr string | PyOther

text \<open>
  The value under \<open>'dividend_payment_months'\<close>: a string, a list, or another object, of
  which only the truth value and \<open>str()\<close> are read.
\<close>

datatype months_data = MonthsStr string | MonthsList "py_value list" | MonthsOther bool string

text \<open>The loop over a list of months (lines 1843 to 1849 of app.py).\<close>

fun validate_loop :: "py_value list \<Rightarrow> int list \<Rightarrow> int list" where
  "validate_loop [] payment_months = payment_months"
| "validate_loop (PyInt m # ms) payment_months =
     (if 1 \<le> m \<and> m \<le> 12 then validate_loop ms (payment_months @ [m])
      else validate_loop ms payment_months)"
| "validate_loop (PyStr m # ms) payment_months =
     (if isdigit (strip m) then
        (let m_int = int_of_digits (strip m) in
         if 1 \<le> m_int \<and> m_int \<le> 12 then validate_loop ms (payment_months @ [m_int])
         else validate_loop ms payment_months)
      else validate_loop ms payment_months)"
| "validate_loop (PyOther # ms) payment_months = validate_loop ms payment_months"

text \<open>
  A dictionary entry: the key is absent, or it holds \<open>None\<close> (an SQL \<open>NULL\<close>), or it
  holds a value. \<open>dict_get e d\<close> is \<open>asset.get(key, d)\<close>, with \<open>None\<close> for Python's \<open>None\<close>.
\<close>

datatype 'a entry = Absent | PyNone | Value 'a

definition dict_get :: "'a entry \<Rightarrow> 'a \<Rightarrow> 'a option" where
  "dict_get e d = (case e of Absent \<Rightarrow> Some d | PyNone \<Rightarrow> None | Value v \<Rightarrow> Some v)"

definition months_truthy :: "months_data option \<Rightarrow> bool" where
  "months_truthy months_data =
     (case months_data of
        None \<Rightarrow> False
      | Some (MonthsStr s) \<Rightarrow> s \<noteq> []
      | Some (MonthsList l) \<Rightarrow> l \<noteq> []
      | Some (MonthsOther t s) \<Rightarrow> t)"

text \<open>Lines 1833 to 1852 of app.py: the payment months read from the asset record.\<close>

definition stored_payment_months :: "months_data option \<Rightarrow> int list" where
  "stored_payment_months months_data =
     (if months_truthy months_data then
        (case months_data of
           Some (MonthsStr s) \<Rightarrow> parse_payment_months s
         | Some (MonthsList l) \<Rightarrow> validate_loop l []
         | Some (MonthsOther t s) \<Rightarrow> parse_payment_months s
         | None \<Rightarrow> [])
      else [])"

subsection \<open>The calendar\<close>

text \<open>
  An asset record as \<open>get_all_assets\<close> delivers it; the key \<open>'symbol'\<close>, the primary key of
  the table, is always present.
\<close>

record asset =
  asset_symbol :: string
  asset_name :: "string entry"
  asset_annual_dividend :: "real entry"
  asset_dividend_frequency :: "string entry"
  asset_dividend_payment_months :: "months_data entry"

text \<open>A contribution to a month: the dictionary with keys symbol, name, amount, shares.\<close>

record payment =
  pay_symbol :: string
  pay_name :: "string option"
  pay_amount :: real
  pay_shares :: int

text \<open>The same dictionary after taxes, with three more keys; \<open>pay_amount\<close> is then the net.\<close>

record taxed_payment = payment +
  amount_before_tax :: real
  tax_amount :: real
  tax_rate :: real

record 'p month_entry =
  amount :: real
  assets :: "'p list"

text \<open>A dictionary keyed by month, in insertion order.\<close>

type_synonym 'p calendar = "(int \<times> 'p month_entry) list"

definition initial_calendar :: "payment calendar" where
  "initial_calendar = map (\<lambda>i. (i, \<lparr>amount = 0, assets = []\<rparr>)) [1..12]"

text \<open>Assignment to an entry of the dictionary that exists.\<close>

definition dict_set :: "'p calendar \<Rightarrow> int \<Rightarrow> 'p month_entry \<Rightarrow> 'p calendar" where
  "dict_set cal k v = map (\<lambda>kv. if fst kv = k then (k, v) else kv) cal"

text \<open>
  \<open>for month in payment_months\<close>: the amount is added to the month and the contribution
  appended; \<open>monthly_dividends[month]\<close> raises \<open>KeyError\<close> on a month that is not a key.
\<close>

fun add_payments ::
  "payment calendar \<Rightarrow> int list \<Rightarrow> real \<Rightarrow> payment \<Rightarrow> py_exception + payment calendar" where
  "add_payments monthly_dividends [] amt p = Inr monthly_dividends"
| "add_payments monthly_dividends (month0 # ms) amt p =
     (case map_of monthly_dividends month0 of
        None \<Rightarrow> Inl KeyError
      | Some e \<Rightarrow>
          add_payments
            (dict_set monthly_dividends month0
               (e\<lparr>amount := fadd (amount e) amt, assets := assets e @ [p]\<rparr>))
            ms amt p)"

text \<open>
  The body shared by the three branches \<open>'mensual'\<close>, \<open>'trimestral'\<close> and \<open>'irregular'\<close>;
  they differ in the number of payments taken for an empty list (12, 4, 2). The division
  is of a float by an \<open>int\<close>.
\<close>

definition distribute ::
  "payment calendar \<Rightarrow> int list \<Rightarrow> nat \<Rightarrow> real \<Rightarrow> string \<Rightarrow> string option \<Rightarrow> int
     \<Rightarrow> py_exception + payment calendar" where
  "distribute monthly_dividends payment_months default_payments total_annual_dividend
       symbol0 name0 shares =
     (let num_payments =
            (if payment_months \<noteq> [] then length payment_months else default_payments);
          per_payment = fdiv total_annual_dividend (float_of_int (int num_payments))
      in add_payments monthly_dividends payment_months per_payment
           \<lparr>pay_symbol = symbol0, pay_name = name0, pay_amount = per_payment,
            pay_shares = shares\<rparr>)"

text \<open>\<open>shares_dict.get(symbol, 0)\<close> and \<open>asset.get('annual_dividend', 0) or 0\<close>.\<close>

definition shares_of :: "(string \<rightharpoonup> int) \<Rightarrow> asset \<Rightarrow> int" where
  "shares_of shares_dict a = get_or (shares_dict (asset_symbol a)) 0"

definition annual_dividend_per_share :: "asset \<Rightarrow> real" where
  "annual_dividend_per_share a =
     (case dict_get (asset_annual_dividend a) 0 of
        None \<Rightarrow> 0
      | Some v \<Rightarrow> if v \<noteq> 0 then v else 0)"

definition total_annual_dividend :: "(string \<rightharpoonup> int) \<Rightarrow> asset \<Rightarrow> real" where
  "total_annual_dividend shares_dict a =
     fmul (annual_dividend_per_share a) (float_of_int (shares_of shares_dict a))"

definition frequency_of :: "asset \<Rightarrow> string option" where
  "frequency_of a = dict_get (asset_dividend_frequency a) ''sin_dividendos''"

text \<open>The body of the loop over the assets (lines 1816 to 1904).\<close>

definition process_asset ::
  "(string \<rightharpoonup> int) \<Rightarrow> payment calendar \<Rightarrow> asset \<Rightarrow> py_exception + payment calendar" where
  "process_asset shares_dict monthly_dividends a =
     (let symbol0 = asset_symbol a;
          shares = shares_of shares_dict a
      in
        if shares \<le> 0 then Inr monthly_dividends
        else
          let total = total_annual_dividend shares_dict a;
              frequency = frequency_of a
          in
            if total \<le> 0 \<or> frequency = Some ''sin_dividendos'' then Inr monthly_dividends
            else
              let months_data = dict_get (asset_dividend_payment_months a) (MonthsStr '''');
                  payment_months0 = stored_payment_months months_data;
                  payment_months =
                    (if payment_months0 = [] then
                       (if frequency = Some ''mensual'' then [1..12]
                        else if frequency = Some ''trimestral'' then [3, 6, 9, 12]
                        else if frequency = Some ''irregular'' then [6, 12]
                        else payment_months0)
                     else payment_months0);
                  name0 = dict_get (asset_name a) symbol0
              in
                if frequency = Some ''mensual'' then
                  distribute monthly_dividends payment_months 12 total symbol0 name0 shares
                else if frequency = Some ''trimestral'' then
                  distribute monthly_dividends payment_months 4 total symbol0 name0 shares
                else if frequency = Some ''irregular'' then
                  distribute monthly_dividends payment_months 2 total symbol0 name0 shares
                else Inr monthly_dividends)"

fun assets_loop ::
  "(string \<rightharpoonup> int) \<Rightarrow> payment calendar \<Rightarrow> asset list \<Rightarrow> py_exception + payment calendar" where
  "assets_loop shares_dict monthly_dividends [] = Inr monthly_dividends"
| "assets_loop shares_dict monthly_dividends (a # rest) =
     (case process_asset shares_dict monthly_dividends a of
        Inl e \<Rightarrow> Inl e
      | Inr monthly_dividends' \<Rightarrow> assets_loop shares_dict monthly_dividends' rest)"

text \<open>
  \<open>_calculate_monthly_dividends\<close>: the first argument is \<open>st.session_state.portfolio_shares\<close>,
  read when \<open>shares_dict\<close> is \<open>None\<close>.
\<close>

definition calculate_monthly_dividends ::
  "(string \<rightharpoonup> int) \<Rightarrow> asset list \<Rightarrow> (string \<rightharpoonup> int) option
     \<Rightarrow> py_exception + payment calendar" where
  "calculate_monthly_dividends session_portfolio_shares asset_list shares_dict =
     (let shares_dict1 =
            (case shares_dict of None \<Rightarrow> session_portfolio_shares | Some d \<Rightarrow> d)
      in assets_loop shares_dict1 initial_calendar asset_list)"

subsection \<open>Taxes (\<open>_portfolio_calendar_tab\<close>)\<close>

text \<open>Lines 1771 to 1781: one contribution, with \<open>portfolio_tax_rates.get(symbol, 0.0)\<close>.\<close>

definition apply_tax :: "(string \<rightharpoonup> real) \<Rightarrow> payment \<Rightarrow> taxed_payment" where
  "apply_tax portfolio_tax_rates asset_info =
     (let symbol0 = pay_symbol asset_info;
          tax_rate0 = get_or (portfolio_tax_rates symbol0) 0;
          dividend_before_tax = pay_amount asset_info;
          tax_amount0 = fmul dividend_before_tax (fdiv tax_rate0 100);
          dividend_after_tax = fsub dividend_before_tax tax_amount0
      in \<lparr>pay_symbol = symbol0, pay_name = pay_name asset_info,
          pay_amount = dividend_after_tax, pay_shares = pay_shares asset_info,
          amount_before_tax = dividend_before_tax, tax_amount = tax_amount0,
          tax_rate = tax_rate0\<rparr>)"

text \<open>
  Lines 1769 to 1784: every month, its total recomputed as the sum of the net amounts;
  \<open>builtin_sum\<close> is the summation of Python's \<open>sum\<close>.
\<close>

definition apply_taxes ::
  "(real list \<Rightarrow> real) \<Rightarrow> (string \<rightharpoonup> real) \<Rightarrow> payment calendar \<Rightarrow> taxed_payment calendar" where
  "apply_taxes builtin_sum portfolio_tax_rates monthly_dividends =
     map (\<lambda>kv. let taxed = map (apply_tax portfolio_tax_rates) (assets (snd kv))
               in (fst kv,
                   \<lparr>amount = sum_routine builtin_sum (map pay_amount taxed), assets = taxed\<rparr>))
       monthly_dividends"

record session_state =
  portfolio_selected :: "string list"
  portfolio_shares :: "string \<rightharpoonup> int"
  portfolio_tax_rates :: "string \<rightharpoonup> real"

text \<open>
  \<open>_portfolio_calendar_tab\<close>, without its rendering: the result is the calendar handed to
  \<open>_display_dividend_calendar\<close>, or \<open>None\<close> when the tab returns before. The second
  argument is the result of \<open>db.get_all_assets()\<close>.
\<close>

definition portfolio_calendar_tab ::
  "(real list \<Rightarrow> real) \<Rightarrow> session_state \<Rightarrow> asset list
     \<Rightarrow> py_exception + taxed_payment calendar option" where
  "portfolio_calendar_tab builtin_sum st all_assets =
     (if portfolio_selected st = [] then Inr None
      else
        let selected_assets =
              filter (\<lambda>a. asset_symbol a \<in> set (portfolio_selected st)) all_assets
        in
          if selected_assets = [] then Inr None
          else
            (case calculate_monthly_dividends (portfolio_shares st) selected_assets
                    (Some (portfolio_shares st)) of
               Inl e \<Rightarrow> Inl e
             | Inr monthly_dividends \<Rightarrow>
                 let taxed = apply_taxes builtin_sum (portfolio_tax_rates st) monthly_dividends;
                     selected_assets_with_shares =
                       filter (\<lambda>a. get_or (portfolio_shares st (asset_symbol a)) 0 > 0)
                         selected_assets
                 in if selected_assets_with_shares = [] then Inr None
                    else Inr (Some taxed)))"



text \<open>
  The contribution records of a calendar: their number, the exact sum of their amounts,
  and the relation of the amount of a month to its records (it is their sum up to one
  rounding for each record).
\<close>

definition records :: "payment calendar \<Rightarrow> nat" where
  "records cal = sum_list (map (\<lambda>kv. length (assets (snd kv))) cal)"

definition recorded_total :: "payment calendar \<Rightarrow> real" where
  "recorded_total cal = sum_list (map (\<lambda>kv. sum_list (map pay_amount (assets (snd kv)))) cal)"

definition month_ok :: "payment month_entry \<Rightarrow> bool" where
  "month_ok e =
     (list_all (\<lambda>p. 0 \<le> pay_amount p) (assets e)
      \<and> near (length (assets e)) (amount e) (sum_list (map pay_amount (assets e))))"

text \<open>The calendar has the twelve months as its keys, in order.\<close>

definition well_keyed :: "'p calendar \<Rightarrow> bool" where
  "well_keyed cal = (map fst cal = [1, 2, 3, 4, 5, 6, 7, 8, 9, 10, 11, 12])"

subsection \<open>The aggregation in the words of the specification\<close>

text \<open>The labels that pay, and the default schedule of each.\<close>

definition paying_label :: "string option \<Rightarrow> bool" where
  "paying_label f =
     (f = Some ''mensual'' \<or> f = Some ''trimestral'' \<or> f = Some ''irregular'')"

definition known_label :: "string option \<Rightarrow> bool" where
  "known_label f = (paying_label f \<or> f = Some ''sin_dividendos'')"

definition default_schedule :: "string option \<Rightarrow> int list" where
  "default_schedule f =
     (if f = Some ''mensual'' then [1, 2, 3, 4, 5, 6, 7, 8, 9, 10, 11, 12]
      else if f = Some ''trimestral'' then [3, 6, 9, 12]
      else if f = Some ''irregular'' then [6, 12]
      else [])"

text \<open>
  The annual total of a holding, taken exactly: the annual dividend per share times the
  shares.
\<close>

definition exact_annual :: "(string \<rightharpoonup> int) \<Rightarrow> asset \<Rightarrow> real" where
  "exact_annual shares_dict a =
     annual_dividend_per_share a * real_of_int (shares_of shares_dict a)"


text \<open>
  A holding is included, as the code has it: the float of the annual total is positive
  and the cadence is one of the three that pay.
\<close>

definition included :: "(string \<rightharpoonup> int) \<Rightarrow> asset \<Rightarrow> bool" where
  "included shares_dict a =
     (shares_of shares_dict a > 0 \<and> total_annual_dividend shares_dict a > 0
      \<and> paying_label (frequency_of a))"

text \<open>
  A contribution after taxes, in the words of the specification with the float operations
  of the code: the gross amount is the amount before, the tax is gross times (rate over
  100), the net amount is gross minus tax.
\<close>

definition taxed_as :: "(string \<rightharpoonup> real) \<Rightarrow> payment \<Rightarrow> taxed_payment \<Rightarrow> bool" where
  "taxed_as rates p c =
     (pay_symbol c = pay_symbol p \<and> pay_name c = pay_name p \<and> pay_shares c = pay_shares p
      \<and> amount_before_tax c = pay_amount p
      \<and> tax_rate c = get_or (rates (pay_symbol p)) 0
      \<and> tax_amount c = fmul (amount_before_tax c) (fdiv (tax_rate c) 100)
      \<and> pay_amount c = fsub (amount_before_tax c) (tax_amount c))"

subsection \<open>Example portfolios\<close>

definition example_asset :: "string entry \<Rightarrow> months_data entry \<Rightarrow> asset" where
  "example_asset f md =
     \<lparr>asset_symbol = ''KO'', asset_name = Value ''Coca-Cola'', asset_annual_dividend = Value 2,
      asset_dividend_frequency = f, asset_dividend_payment_months = md\<rparr>"

text \<open>100 shares of a quarterly payer of 2.00 a year, without stored months.\<close>

definition quarterly_asset :: asset where
  "quarterly_asset = example_asset (Value ''trimestral'') PyNone"

text \<open>The same asset under the label \<open>'anual'\<close>, which the aggregation does not know.\<close>

definition yearly_asset :: asset where
  "yearly_asset = example_asset (Value ''anual'') PyNone"


text \<open>The same asset with the stored months 13 and 3.\<close>

definition bad_months_asset :: asset where
  "bad_months_asset =
     example_asset (Value ''trimestral'') (Value (MonthsList [PyInt 13, PyInt 3]))"

definition example_shares :: "string \<rightharpoonup> int" where
  "example_shares s = (if s = ''KO'' then Some 100 else None)"

definition negative_shares :: "string \<rightharpoonup> int" where
  "negative_shares s = (if s = ''KO'' then Some (- 5) else None)"

definition example_tax_rates :: "string \<rightharpoonup> real" where
  "example_tax_rates s = (if s = ''KO'' then Some 15 else None)"

definition excessive_tax_rates :: "string \<rightharpoonup> real" where
  "excessive_tax_rates s = (if s = ''KO'' then Some 150 else None)"

definition example_session :: "(string \<rightharpoonup> real) \<Rightarrow> session_state" where
  "example_session rates =
     \<lparr>portfolio_selected = [''KO''], portfolio_shares = example_shares,
      portfolio_tax_rates = rates\<rparr>"

definition example_payment :: payment where
  "example_payment =
     \<lparr>pay_symbol = ''KO'', pay_name = Some ''Coca-Cola'', pay_amount = 50, pay_shares = 100\<rparr>"

text \<open>The calendar of 100 shares of the quarterly payer: 50 in each of the months 3, 6, 9, 12.\<close>

definition empty_month :: "payment month_entry" where
  "empty_month = \<lparr>amount = 0, assets = []\<rparr>"

definition paid_month :: "payment month_entry" where
  "paid_month = \<lparr>amount = 50, assets = [example_payment]\<rparr>"

definition quarterly_calendar :: "payment calendar" where
  "quarterly_calendar =
     [(1, empty_month), (2, empty_month), (3, paid_month), (4, empty_month),
      (5, empty_month), (6, paid_month), (7, empty_month), (8, empty_month),
      (9, paid_month), (10, empty_month), (11, empty_month), (12, paid_month)]"

text \<open>The same calendar after a tax of 15 percent: 7.50 of tax and 42.50 net in each paid month.\<close>

definition taxed_payment_15 :: taxed_payment where
  "taxed_payment_15 =
     \<lparr>pay_symbol = ''KO'', pay_name = Some ''Coca-Cola'', pay_amount = 85 / 2, pay_shares = 100,
      amount_before_tax = 50, tax_amount = 15 / 2, tax_rate = 15\<rparr>"

definition taxed_empty_month :: "taxed_payment month_entry" where
  "taxed_empty_month = \<lparr>amount = 0, assets = []\<rparr>"

definition taxed_paid_month :: "taxed_payment month_entry" where
  "taxed_paid_month = \<lparr>amount = 85 / 2, assets = [taxed_payment_15]\<rparr>"

definition taxed_quarterly_calendar :: "taxed_payment calendar" where
  "taxed_quarterly_calendar =
     [(1, taxed_empty_month), (2, taxed_empty_month), (3, taxed_paid_month),
      (4, taxed_empty_month), (5, taxed_empty_month), (6, taxed_paid_month),
      (7, taxed_empty_month), (8, taxed_empty_month), (9, taxed_paid_month),
      (10, taxed_empty_month), (11, taxed_empty_month), (12, taxed_paid_month)]"

text \<open>
  The calendar of 100 shares of the monthly payer: the float of 200 / 12,
  16.666666666666668, in every month.
\<close>

definition twelfth :: real where
  "twelfth = 4691249611844267 / 281474976710656"



text \<open>
  One share of an asset paying 222.69 a year in June, taxed at 72.2 percent:
  \<open>june_gross\<close> and \<open>june_rate\<close> are the floats 222.69 and 72.2, \<open>june_tax\<close> and
  \<open>june_net\<close> the floats 160.78217999999998 and 61.907820000000015.
\<close>

definition june_gross :: real where
  "june_gross = 3917603910230999 / 17592186044416"

definition june_rate :: real where
  "june_rate = 5080623329627341 / 70368744177664"

definition june_tax :: real where
  "june_tax = 2828510023186781 / 17592186044416"

definition june_net :: real where
  "june_net = 544546943522109 / 8796093022208"

definition june_asset :: asset where
  "june_asset =
     \<lparr>asset_symbol = ''KO'', asset_name = Value ''Coca-Cola'',
      asset_annual_dividend = Value june_gross,
      asset_dividend_frequency = Value ''irregular'',
      asset_dividend_payment_months = Value (MonthsList [PyInt 6])\<rparr>"

definition one_share :: "string \<rightharpoonup> int" where
  "one_share s = (if s = ''KO'' then Some 1 else None)"

definition june_tax_rates :: "string \<rightharpoonup> real" where
  "june_tax_rates s = (if s = ''KO'' then Some june_rate else None)"

definition june_session :: session_state where
  "june_session =
     \<lparr>portfolio_selected = [''KO''], portfolio_shares = one_share,
      portfolio_tax_rates = june_tax_rates\<rparr>"

definition june_payment :: payment where
  "june_payment =
     \<lparr>pay_symbol = ''KO'', pay_name = Some ''Coca-Cola'', pay_amount = june_gross,
      pay_shares = 1\<rparr>"

definition june_taxed_payment :: taxed_payment where
  "june_taxed_payment =
     \<lparr>pay_symbol = ''KO'', pay_name = Some ''Coca-Cola'', pay_amount = june_net, pay_shares = 1,
      amount_before_tax = june_gross, tax_amount = june_tax, tax_rate = june_rate\<rparr>"

definition june_calendar :: "payment calendar" where
  "june_calendar =
     map (\<lambda>i. (i, if i = 6 then \<lparr>amount = june_gross, assets = [june_payment]\<rparr>
                   else empty_month)) [1..12]"

definition june_taxed_calendar :: "taxed_payment calendar" where
  "june_taxed_calendar =
     map (\<lambda>i. (i, if i = 6 then \<lparr>amount = june_net, assets = [june_taxed_payment]\<rparr>
                   else taxed_empty_month)) [1..12]"

section \<open>Properties of the float operations\<close>

lemma round_half_even_bounds:
  "x - 1 / 2 \<le> of_int (round_half_even x) \<and> of_int (round_half_even x) \<le> x + 1 / 2"
  by (auto simp: round_half_even_def Let_def) linarith+

lemma round_half_even_near:
  assumes "\<bar>y - of_int k\<bar> < 1 / 2"
  shows "round_half_even y = k"
proof -
  have "\<lfloor>y\<rfloor> = k \<or> \<lfloor>y\<rfloor> = k - 1" using assms by (auto simp: abs_if split: if_splits) linarith+
  then show ?thesis
  proof
    assume f: "\<lfloor>y\<rfloor> = k"
    then have "y - of_int k < 1 / 2" using assms by linarith
    then show ?thesis using f by (simp add: round_half_even_def Let_def)
  next
    assume f: "\<lfloor>y\<rfloor> = k - 1"
    then have "1 / 2 < y - of_int (k - 1)" using assms by (simp add: abs_if split: if_splits)
    then show ?thesis using f by (simp add: round_half_even_def Let_def)
  qed
qed

lemma round_pos_bounds:
  "0 < x \<Longrightarrow> (1 - 1 / 2 ^ 53) * x \<le> round_pos x \<and> round_pos x \<le> (1 + 1 / 2 ^ 53) * x"
proof (induction x rule: round_pos.induct)
  case (1 x)
  consider "x < 2 ^ 52" | "2 ^ 53 \<le> x" | "2 ^ 52 \<le> x" "x < 2 ^ 53"
    by linarith
  then show ?case
  proof cases
    case 1
    with "1.prems" "1.IH"(1) have "(1 - 1 / 2 ^ 53) * (2 * x) \<le> round_pos (2 * x)
        \<and> round_pos (2 * x) \<le> (1 + 1 / 2 ^ 53) * (2 * x)"
      by simp
    moreover have "round_pos x = round_pos (2 * x) / 2"
      using 1 "1.prems" by (subst round_pos.simps) simp
    ultimately show ?thesis by simp
  next
    case 2
    with "1.prems" "1.IH"(2) have "(1 - 1 / 2 ^ 53) * (x / 2) \<le> round_pos (x / 2)
        \<and> round_pos (x / 2) \<le> (1 + 1 / 2 ^ 53) * (x / 2)"
      by simp
    moreover have "round_pos x = 2 * round_pos (x / 2)"
      using 2 "1.prems" by (subst round_pos.simps) simp
    ultimately show ?thesis by simp
  next
    case 3
    then have "round_pos x = of_int (round_half_even x)"
      using "1.prems" by (subst round_pos.simps) simp
    moreover have "1 / 2 \<le> x / 2 ^ 53" using 3 by simp
    ultimately show ?thesis
      using round_half_even_bounds [of x] by (simp add: algebra_simps)
  qed
qed

lemma round_pos_nonpos: "x \<le> 0 \<Longrightarrow> round_pos x = 0"
  by (subst round_pos.simps) simp

lemma round_pos_pos: "0 < x \<Longrightarrow> 0 < round_pos x"
proof -
  assume x: "0 < x"
  then have "0 < (1 - 1 / 2 ^ 53) * x" by simp
  then show ?thesis using round_pos_bounds [OF x] by linarith
qed

lemma float64_zero: "float64 0 = 0"
  by (simp add: float64_def round_pos_nonpos)

lemma float64_pos_iff: "0 < float64 x \<longleftrightarrow> 0 < x"
proof (cases "0 < x")
  case True
  then show ?thesis by (simp add: float64_def round_pos_pos)
next
  case False
  then have "x = 0 \<or> x < 0" by linarith
  then show ?thesis
  proof
    assume "x = 0"
    then show ?thesis by (simp add: float64_zero)
  next
    assume n: "x < 0"
    then have "0 < round_pos (- x)" by (simp add: round_pos_pos)
    then show ?thesis using n by (simp add: float64_def)
  qed
qed

lemma float64_nonneg: "0 \<le> x \<Longrightarrow> 0 \<le> float64 x"
  using float64_pos_iff [of x] float64_zero by (cases "x = 0") auto

lemma round_factors: "0 < round_down" "round_down \<le> 1" "1 \<le> round_up" "0 < round_up"
  by (simp_all add: round_down_def round_up_def)

lemma round_factor_powers: "0 \<le> round_down ^ k" "0 \<le> round_up ^ k"
  using round_factors by simp_all

lemma near_refl: "near 0 x x"
  by (simp add: near_def)

lemma near_zero: "near k 0 0"
  by (simp add: near_def)

lemma near_nonneg: "near k x y \<Longrightarrow> 0 \<le> y \<Longrightarrow> 0 \<le> x"
proof -
  assume w: "near k x y" and y: "0 \<le> y"
  have "0 \<le> round_down ^ k * y" using y round_factor_powers(1) by simp
  then show ?thesis using w by (simp add: near_def)
qed

lemma near_mono:
  assumes "near k x y" "0 \<le> y" "k \<le> k'"
  shows "near k' x y"
proof -
  have "round_down ^ k' \<le> round_down ^ k"
    using assms(3) round_factors by (intro power_decreasing) simp_all
  then have l: "round_down ^ k' * y \<le> round_down ^ k * y"
    using assms(2) by (rule mult_right_mono)
  have "round_up ^ k \<le> round_up ^ k'"
    using assms(3) round_factors by (intro power_increasing) simp_all
  then have "round_up ^ k * y \<le> round_up ^ k' * y"
    using assms(2) by (rule mult_right_mono)
  with l show ?thesis using assms(1) by (simp add: near_def)
qed

lemma near_add:
  "near k x1 y1 \<Longrightarrow> near k x2 y2 \<Longrightarrow> near k (x1 + x2) (y1 + y2)"
  by (simp add: near_def algebra_simps)

lemma near_scale:
  assumes "near k x y" "0 \<le> c"
  shows "near k (c * x) (c * y)"
proof -
  from assms have "c * (round_down ^ k * y) \<le> c * x" "c * x \<le> c * (round_up ^ k * y)"
    by (simp_all add: near_def mult_left_mono)
  then show ?thesis by (simp add: near_def mult.left_commute)
qed

lemma near_trans:
  assumes "near j x y" "near k y z"
  shows "near (j + k) x z"
proof -
  have "round_down ^ j * (round_down ^ k * z) \<le> round_down ^ j * y"
    using assms(2) round_factor_powers(1) [of j] by (intro mult_left_mono) (simp_all add: near_def)
  also have "\<dots> \<le> x" using assms(1) by (simp add: near_def)
  finally have l: "round_down ^ (j + k) * z \<le> x" by (simp add: power_add mult.assoc)
  have "x \<le> round_up ^ j * y" using assms(1) by (simp add: near_def)
  also have "\<dots> \<le> round_up ^ j * (round_up ^ k * z)"
    using assms(2) round_factor_powers(2) [of j] by (intro mult_left_mono) (simp_all add: near_def)
  finally have "x \<le> round_up ^ (j + k) * z" by (simp add: power_add mult.assoc)
  with l show ?thesis by (simp add: near_def)
qed

lemma float64_near: "0 \<le> x \<Longrightarrow> near 1 (float64 x) x"
proof (cases "x = 0")
  case True
  then show ?thesis by (simp add: float64_zero near_def)
next
  case False
  assume "0 \<le> x"
  with False have "0 < x" by simp
  then show ?thesis
    using round_pos_bounds [of x] by (simp add: float64_def near_def round_down_def round_up_def)
qed

lemma near_float64:
  assumes "near k x y" "0 \<le> y"
  shows "near (Suc k) (float64 x) y"
proof -
  have "0 \<le> x" using assms by (rule near_nonneg)
  then have "near 1 (float64 x) x" by (rule float64_near)
  then show ?thesis using near_trans [OF _ assms(1), of 1 "float64 x"] by simp
qed


text \<open>Evaluation of the float operations on numerals.\<close>

lemmas float_eval =
  float64_def fadd_def fsub_def fmul_def fdiv_def float_of_int_def round2_def
  sequential_sum_def round_pos.simps round_half_even_def Let_def

section \<open>Properties of the frequency classifier\<close>

lemma upper_KO: "upper ''KO'' = ''KO''"
  by (simp add: upper_def upper_char_def)

lemma payment_count_code:
  "length (remdups (map (normalize \<circ> fst) (since (as_of - Timedelta_days 365) events)))
     = spec_payment_count as_of events"
  by (simp add: spec_payment_count_def window_events_def since_def length_remdups_card_conv image_comp)

lemma since_empty_count:
  "since (as_of - Timedelta_days 365) events = [] \<longleftrightarrow> spec_payment_count as_of events = 0"
  by (auto simp: spec_payment_count_def window_events_def since_def filter_empty_conv)

lemma analyze_datetime:
  "dividends tk = Inr (DatetimeSeries tz events) \<Longrightarrow>
   analyze_dividend_frequency as_of tk = spec_cadence (spec_payment_count as_of events)"
proof -
  assume d: "dividends tk = Inr (DatetimeSeries tz events)"
  let ?recent = "since (as_of - Timedelta_days 365) events"
  show ?thesis
  proof (cases "events = []")
    case True
    then show ?thesis using d
      by (simp add: analyze_dividend_frequency_def analyze_dividend_frequency_try_def
          spec_cadence_def spec_payment_count_def window_events_def)
  next
    case False
    show ?thesis
    proof (cases "?recent = []")
      case True
      then have "spec_payment_count as_of events = 0" by (simp add: since_empty_count)
      then show ?thesis using d False True
        by (simp add: analyze_dividend_frequency_def analyze_dividend_frequency_try_def
            spec_cadence_def Let_def)
    next
      case r: False
      then have "spec_payment_count as_of events \<noteq> 0" by (simp add: since_empty_count)
      then show ?thesis using d False r payment_count_code [of as_of events]
        by (simp add: analyze_dividend_frequency_def analyze_dividend_frequency_try_def
            spec_cadence_def Let_def)
    qed
  qed
qed

lemma quarterly_count: "spec_payment_count example_now (rows_of quarterly_history) = 4"
  by (simp add: spec_payment_count_def window_events_def quarterly_history_def example_now_def
      day_def Timedelta_days_def normalize_def)

text \<open>
  Claim C1. For a dividend history delivered as a Series over a DatetimeIndex and an as-of
  time, let the payment count be the number of distinct calendar dates among the events
  not older than 365 days before the as-of time. The classifier returns \<open>'mensual'\<close> when
  the count is at least 10, \<open>'trimestral'\<close> when it is between 3 and 9, \<open>'irregular'\<close> when
  it is 1 or 2, and \<open>'sin_dividendos'\<close> when it is 0.
\<close>

theorem classifier_thresholds:
  assumes "dividends tk = Inr (DatetimeSeries tz events)"
  shows "(10 \<le> spec_payment_count as_of events \<longrightarrow>
            analyze_dividend_frequency as_of tk = ''mensual'')
       \<and> (3 \<le> spec_payment_count as_of events \<and> spec_payment_count as_of events \<le> 9 \<longrightarrow>
            analyze_dividend_frequency as_of tk = ''trimestral'')
       \<and> (1 \<le> spec_payment_count as_of events \<and> spec_payment_count as_of events \<le> 2 \<longrightarrow>
            analyze_dividend_frequency as_of tk = ''irregular'')
       \<and> (spec_payment_count as_of events = 0 \<longrightarrow>
            analyze_dividend_frequency as_of tk = ''sin_dividendos'')"
  using analyze_datetime [OF assms, of as_of] by (simp add: spec_cadence_def)

theorem classifier_thresholds_witness:
  "dividends (example_ticker (Inr quarterly_history)) = Inr quarterly_history
   \<and> 3 \<le> spec_payment_count example_now (rows_of quarterly_history)
   \<and> spec_payment_count example_now (rows_of quarterly_history) \<le> 9
   \<and> analyze_dividend_frequency example_now (example_ticker (Inr quarterly_history)) = ''trimestral''"
proof -
  have d: "dividends (example_ticker (Inr quarterly_history))
             = Inr (DatetimeSeries None (rows_of quarterly_history))"
    by (simp add: example_ticker_def quarterly_history_def)
  show ?thesis
    using classifier_thresholds [OF d, of example_now] quarterly_count
    by (simp add: example_ticker_def)
qed

text \<open>
  Claim C9. When an exception is raised while the history is analysed (the feed raises, or
  the Series is not indexed by dates), the classifier catches it and returns
  \<open>'irregular'\<close>, not \<open>'sin_dividendos'\<close> and not the exception: an asset without
  any valid payment history is then labelled irregular.
\<close>

theorem exception_gives_irregular:
  "(analyze_dividend_frequency_try now tk = Inl e \<longrightarrow>
      analyze_dividend_frequency now tk = ''irregular'')
   \<and> (dividends tk = Inl e \<longrightarrow> analyze_dividend_frequency now tk = ''irregular'')
   \<and> (dividends tk = Inr (OtherSeries (Suc n)) \<longrightarrow>
        analyze_dividend_frequency now tk = ''irregular'')"
  by (simp add: analyze_dividend_frequency_def analyze_dividend_frequency_try_def)

theorem exception_gives_irregular_witness:
  "dividends (example_ticker (Inl UpstreamError)) = Inl UpstreamError
   \<and> analyze_dividend_frequency example_now (example_ticker (Inl UpstreamError)) = ''irregular''
   \<and> analyze_dividend_frequency example_now (example_ticker (Inl UpstreamError)) \<noteq> ''sin_dividendos''"
  using exception_gives_irregular [of example_now "example_ticker (Inl UpstreamError)" UpstreamError 0]
  by (simp add: example_ticker_def)

lemma round2_zero: "round2 0 = 0"
  by (simp add: round2_def round_half_even_def float64_zero)

lemma round2_nearest:
  assumes "0 \<le> k" "k < 2 ^ 52"
  shows "round2 (float64 (of_int k / 100)) = float64 (of_int k / 100)"
proof -
  define x where "x = float64 (of_int k / 100)"
  define q :: real where "q = of_int k"
  have q: "0 \<le> q" "q < 2 ^ 52" using assms by (simp_all add: q_def)
  have "near 1 x (q / 100)"
    unfolding x_def q_def using assms(1) by (intro float64_near) simp
  then have "(1 - 1 / 2 ^ 53) * (q / 100) \<le> x" "x \<le> (1 + 1 / 2 ^ 53) * (q / 100)"
    by (simp_all add: near_def round_down_def round_up_def)
  then have "q - q / 2 ^ 53 \<le> x * 100" "x * 100 \<le> q + q / 2 ^ 53"
    by (simp_all add: algebra_simps)
  moreover have "q / 2 ^ 53 < 1 / 2" using q(2) by simp
  ultimately have "\<bar>x * 100 - q\<bar> < 1 / 2" by linarith
  then have "round_half_even (x * 100) = k" unfolding q_def by (rule round_half_even_near)
  then show ?thesis by (simp add: round2_def x_def)
qed

lemma metrics_from_ticker:
  assumes "get_asset_metrics ssum nf na yf smb = Some m"
  shows "\<exists>tk i price. yf (upper smb) = Inr tk \<and> build_metrics ssum nf na smb tk i price = Inr m"
  using assms
  by (auto simp: get_asset_metrics_def get_ticker_data_def get_asset_metrics_try_def Let_def
      split: sum.splits option.splits if_splits)

lemma build_metrics_raises:
  "dividends tk = Inl e \<Longrightarrow> build_metrics ssum nf na smb tk i price = Inl e"
  by (simp add: build_metrics_def)

lemma build_metrics_other:
  "dividends tk = Inr (OtherSeries n) \<Longrightarrow> build_metrics ssum nf na smb tk i price = Inr m \<Longrightarrow>
   n = 0 \<and> dividend_payment_months m = [] \<and> annual_dividend m = 0
     \<and> dividend_frequency m = ''sin_dividendos''"
  by (cases n)
    (auto simp: build_metrics_def Let_def round2_zero analyze_dividend_frequency_def
      analyze_dividend_frequency_try_def)

lemma build_metrics_datetime:
  assumes "dividends tk = Inr (DatetimeSeries tz events)"
    and "build_metrics ssum nf na smb tk i price = Inr m"
  shows "annual_dividend m = round2 (sum_routine ssum (map snd (window_events na events)))"
    and "dividend_payment_months m = sort (remdups (map (month \<circ> fst) (window_events na events)))"
    and "dividend_frequency m = spec_cadence (spec_payment_count nf events)"
  using assms analyze_datetime [OF assms(1), of nf]
  by (auto simp: build_metrics_def Let_def round2_zero window_events_def since_def
      sum_routine_def split: if_splits)

lemma months_empty_iff:
  "sort (remdups (map (month \<circ> fst) (window_events as_of events))) = []
     \<longleftrightarrow> spec_payment_count as_of events = 0"
proof -
  have "sort (remdups (map (month \<circ> fst) (window_events as_of events))) = []
          \<longleftrightarrow> window_events as_of events = []"
    by (metis length_0_conv length_map length_sort remdups_eq_nil_iff)
  then show ?thesis
    by (simp add: spec_payment_count_def)
qed

lemma cadence_none_iff: "spec_cadence n = ''sin_dividendos'' \<longleftrightarrow> n = 0"
  by (simp add: spec_cadence_def)

text \<open>
  When the two readings of the clock give the same instant, the payment months are
  non-empty exactly when the label is not \<open>'sin_dividendos'\<close>.
\<close>

lemma months_iff_cadence_same_reading:
  assumes "get_asset_metrics ssum as_of as_of yf smb = Some m"
  shows "dividend_payment_months m \<noteq> [] \<longleftrightarrow> dividend_frequency m \<noteq> ''sin_dividendos''"
proof -
  from metrics_from_ticker [OF assms] obtain tk i price
    where b: "build_metrics ssum as_of as_of smb tk i price = Inr m" by blast
  show ?thesis
  proof (cases "dividends tk")
    case (Inl e)
    then show ?thesis using b by (simp add: build_metrics_raises)
  next
    case (Inr s)
    show ?thesis
    proof (cases s)
      case (DatetimeSeries tz events)
      with Inr have d: "dividends tk = Inr (DatetimeSeries tz events)" by simp
      show ?thesis
        using build_metrics_datetime(2,3) [OF d b]
        by (simp add: months_empty_iff cadence_none_iff)
    next
      case (OtherSeries n)
      with Inr have d: "dividends tk = Inr (OtherSeries n)" by simp
      show ?thesis using build_metrics_other [OF d b] by simp
    qed
  qed
qed

lemma example_info_symbol: "info_symbol example_info"
  by (simp add: example_info_def)

lemma example_metrics:
  "get_asset_metrics ssum nf na (example_feed d) ''KO''
     = (case build_metrics ssum nf na ''KO'' (example_ticker d) example_info 50 of
          Inl e \<Rightarrow> None | Inr m \<Rightarrow> Some m)"
  by (simp add: get_asset_metrics_def get_ticker_data_def get_asset_metrics_try_def upper_KO
      example_feed_def example_ticker_def example_info_symbol split: sum.splits)

lemma build_metrics_datetime_ok:
  "dividends tk = Inr (DatetimeSeries tz events) \<Longrightarrow>
   \<exists>m. build_metrics ssum nf na smb tk i price = Inr m"
  by (simp add: build_metrics_def Let_def)

lemma example_metrics_ok:
  "\<exists>m. get_asset_metrics ssum nf na (example_feed (Inr (DatetimeSeries tz events))) ''KO'' = Some m"
proof -
  have "dividends (example_ticker (Inr (DatetimeSeries tz events))) = Inr (DatetimeSeries tz events)"
    by (simp add: example_ticker_def)
  from build_metrics_datetime_ok [OF this, of ssum nf na "''KO''" example_info 50]
  show ?thesis by (auto simp: example_metrics)
qed

lemma example_feed_KO: "example_feed d (upper ''KO'') = Inr (example_ticker d)"
  by (simp add: example_feed_def upper_KO)

lemma example_dividends: "dividends (example_ticker d) = d"
  by (simp add: example_ticker_def)

lemma example_metrics_fields:
  assumes "get_asset_metrics ssum nf na (example_feed (Inr (DatetimeSeries tz events))) ''KO''
             = Some m"
  shows "annual_dividend m = round2 (sum_routine ssum (map snd (window_events na events)))"
    and "dividend_payment_months m = sort (remdups (map (month \<circ> fst) (window_events na events)))"
    and "dividend_frequency m = spec_cadence (spec_payment_count nf events)"
proof -
  from metrics_from_ticker [OF assms] obtain i price
    where b: "build_metrics ssum nf na ''KO''
                (example_ticker (Inr (DatetimeSeries tz events))) i price = Inr m"
    by (auto simp: example_feed_KO)
  show "annual_dividend m = round2 (sum_routine ssum (map snd (window_events na events)))"
    and "dividend_payment_months m = sort (remdups (map (month \<circ> fst) (window_events na events)))"
    and "dividend_frequency m = spec_cadence (spec_payment_count nf events)"
    using build_metrics_datetime [OF example_dividends b] by simp_all
qed

lemma race_windows:
  "window_events first_reading (rows_of race_history) = rows_of race_history"
  "window_events second_reading (rows_of race_history) = []"
  by (simp_all add: window_events_def race_history_def first_reading_def second_reading_def
      day_def Timedelta_days_def)

lemma race_count: "spec_payment_count first_reading (rows_of race_history) = 1"
  by (simp add: spec_payment_count_def race_windows(1)) (simp add: race_history_def)

text \<open>
  Claim C4 fails on the code. \<open>get_asset_metrics\<close> reads the clock twice, once for the
  label and once for the payment months. For a payment that is 365 days old between the
  two readings, the label is \<open>'irregular'\<close> while the payment months are empty and the annual
  dividend is 0.
\<close>

theorem months_cadence_race:
  "analyze_dividend_frequency first_reading (example_ticker (Inr race_history)) = ''irregular''
   \<and> map_option dividend_frequency
        (get_asset_metrics sequential_sum first_reading second_reading
           (example_feed (Inr race_history)) ''KO'')
       = Some ''irregular''
   \<and> map_option dividend_payment_months
        (get_asset_metrics sequential_sum first_reading second_reading
           (example_feed (Inr race_history)) ''KO'')
       = Some []
   \<and> map_option annual_dividend
        (get_asset_metrics sequential_sum first_reading second_reading
           (example_feed (Inr race_history)) ''KO'')
       = Some 0"
proof -
  have s: "DatetimeSeries None (rows_of race_history) = race_history"
    by (simp add: race_history_def)
  obtain m where g: "get_asset_metrics sequential_sum first_reading second_reading
      (example_feed (Inr (DatetimeSeries None (rows_of race_history)))) ''KO'' = Some m"
    using example_metrics_ok by blast
  have d: "dividends (example_ticker (Inr race_history))
      = Inr (DatetimeSeries None (rows_of race_history))"
    using s by (simp add: example_dividends)
  have "analyze_dividend_frequency first_reading (example_ticker (Inr race_history)) = ''irregular''"
    using analyze_datetime [OF d, of first_reading] race_count by (simp add: spec_cadence_def)
  moreover have "dividend_frequency m = ''irregular''"
    using example_metrics_fields(3) [OF g] race_count by (simp add: spec_cadence_def)
  moreover have "dividend_payment_months m = []"
    using example_metrics_fields(2) [OF g] race_windows(2) by simp
  moreover have "annual_dividend m = 0"
    using example_metrics_fields(1) [OF g] race_windows(2)
    by (simp add: sum_routine_def round2_zero)
  ultimately show ?thesis using g s by simp
qed





text \<open>
  Claim C8, as amended. The annual dividend returned in the metrics is \<open>round(s, 2)\<close>,
  where \<open>s\<close> is the float that \<open>Series.sum\<close> returns for the amounts of all events of the
  trailing 365-day window, same-day payments included. It is \<open>s\<close> itself whenever \<open>s\<close> is the
  float nearest to a whole number of hundredths (fewer than \<open>2^52\<close> of them).
\<close>

theorem annual_dividend_rounded_sum:
  assumes "yf (upper smb) = Inr tk"
    and "dividends tk = Inr (DatetimeSeries tz events)"
    and "get_asset_metrics series_sum now_frequency now_annual yf smb = Some m"
  shows "annual_dividend m
           = round2 (sum_routine series_sum (map snd (window_events now_annual events)))
       \<and> (\<forall>k. 0 \<le> k \<and> k < 2 ^ 52
              \<and> sum_routine series_sum (map snd (window_events now_annual events))
                  = float64 (of_int k / 100) \<longrightarrow>
            annual_dividend m
              = sum_routine series_sum (map snd (window_events now_annual events)))"
proof -
  from metrics_from_ticker [OF assms(3)] assms(1) obtain i price
    where b: "build_metrics series_sum now_frequency now_annual smb tk i price = Inr m" by auto
  show ?thesis
    using build_metrics_datetime(1) [OF assms(2) b] by (auto simp: round2_nearest)
qed

lemma half_cent_window:
  "map snd (window_events example_now (rows_of half_cent_history)) = [float64 (1 / 10), 3 / 8]"
  by (simp add: window_events_def half_cent_history_def example_now_def day_def
      Timedelta_days_def)

lemma half_cent_sum: "sequential_sum [float64 (1 / 10), 3 / 8] = float64 (19 / 40)"
  by (simp add: float_eval)

lemma half_cent_round: "round2 (float64 (19 / 40)) = float64 (47 / 100)"
  by (simp add: float_eval)

lemma quarterly_window:
  "map snd (window_events example_now (rows_of quarterly_history)) = [1 / 2, 1 / 2, 1 / 2, 1 / 2]"
  by (simp add: window_events_def quarterly_history_def example_now_def day_def
      Timedelta_days_def)

lemma quarterly_sum:
  "sequential_sum [1 / 2, 1 / 2, 1 / 2, 1 / 2] = 2"
  "float64 (of_int 200 / 100) = 2"
  by (simp_all add: float_eval)

theorem annual_dividend_rounded_sum_witness:
  "map snd (window_events example_now (rows_of half_cent_history)) = [float64 (1 / 10), 3 / 8]
   \<and> sequential_sum [float64 (1 / 10), 3 / 8] = float64 (19 / 40)
   \<and> map_option annual_dividend
       (get_asset_metrics sequential_sum example_now example_now
          (example_feed (Inr half_cent_history)) ''KO'')
       = Some (float64 (47 / 100))
   \<and> map snd (window_events example_now (rows_of quarterly_history))
       = [1 / 2, 1 / 2, 1 / 2, 1 / 2]
   \<and> sequential_sum [1 / 2, 1 / 2, 1 / 2, 1 / 2] = float64 (of_int 200 / 100)
   \<and> map_option annual_dividend
       (get_asset_metrics sequential_sum example_now example_now
          (example_feed (Inr quarterly_history)) ''KO'')
       = Some (sequential_sum [1 / 2, 1 / 2, 1 / 2, 1 / 2])"
proof -
  have s: "DatetimeSeries None (rows_of half_cent_history) = half_cent_history"
    by (simp add: half_cent_history_def)
  obtain m where g: "get_asset_metrics sequential_sum example_now example_now
      (example_feed (Inr half_cent_history)) ''KO'' = Some m"
    using example_metrics_ok [of sequential_sum example_now example_now None
        "rows_of half_cent_history"] s
    by auto
  have d: "dividends (example_ticker (Inr half_cent_history))
      = Inr (DatetimeSeries None (rows_of half_cent_history))"
    using s by (simp add: example_dividends)
  have a: "annual_dividend m = float64 (47 / 100)"
    using annual_dividend_rounded_sum [OF example_feed_KO d g]
    by (simp add: half_cent_window sum_routine_def half_cent_sum half_cent_round)
  have s2: "DatetimeSeries None (rows_of quarterly_history) = quarterly_history"
    by (simp add: quarterly_history_def)
  obtain m2 where g2: "get_asset_metrics sequential_sum example_now example_now
      (example_feed (Inr quarterly_history)) ''KO'' = Some m2"
    using example_metrics_ok [of sequential_sum example_now example_now None
        "rows_of quarterly_history"] s2
    by auto
  have d2: "dividends (example_ticker (Inr quarterly_history))
      = Inr (DatetimeSeries None (rows_of quarterly_history))"
    using s2 by (simp add: example_dividends)
  let ?S = "sum_routine sequential_sum
              (map snd (window_events example_now (rows_of quarterly_history)))"
  have S: "?S = sequential_sum [1 / 2, 1 / 2, 1 / 2, 1 / 2]"
    by (simp add: quarterly_window sum_routine_def)
  have h: "(0::int) \<le> 200 \<and> (200::int) < 2 ^ 52 \<and> ?S = float64 (of_int 200 / 100)"
    unfolding S quarterly_sum by simp
  from annual_dividend_rounded_sum [OF example_feed_KO d2 g2]
  have "\<forall>k. 0 \<le> k \<and> k < 2 ^ 52 \<and> ?S = float64 (of_int k / 100) \<longrightarrow> annual_dividend m2 = ?S"
    by (rule conjunct2)
  then have "(0::int) \<le> 200 \<and> (200::int) < 2 ^ 52 \<and> ?S = float64 (of_int 200 / 100)
      \<longrightarrow> annual_dividend m2 = ?S"
    by (rule spec)
  then have "annual_dividend m2 = ?S" using h by (rule mp)
  then have a2: "annual_dividend m2 = sequential_sum [1 / 2, 1 / 2, 1 / 2, 1 / 2]"
    by (simp only: S)
  have q: "sequential_sum [1 / 2, 1 / 2, 1 / 2, 1 / 2] = float64 (of_int 200 / 100)"
    unfolding quarterly_sum by (rule refl)
  show ?thesis
    using g g2 a a2 half_cent_window half_cent_sum quarterly_window q
    by (simp only: option.map simp_thms)
qed

lemma odd_window:
  "map snd (window_events example_now (rows_of odd_history)) = [float64 (333 / 1000)]"
  by (simp add: window_events_def odd_history_def example_now_def day_def Timedelta_days_def)

lemma odd_sum: "sequential_sum [float64 (333 / 1000)] = float64 (333 / 1000)"
  by (simp add: float_eval)

lemma odd_round: "round2 (float64 (333 / 1000)) = float64 (33 / 100)"
  by (simp add: float_eval)

lemma odd_differs: "float64 (33 / 100) \<noteq> float64 (333 / 1000)"
  by (simp add: float_eval)

text \<open>
  Claim C8 as stated fails: one payment of 0.333 in the window is returned as 0.33.
\<close>

theorem annual_dividend_exact_sum_counterexample:
  "map snd (window_events example_now (rows_of odd_history)) = [float64 (333 / 1000)]
   \<and> map_option annual_dividend
       (get_asset_metrics sequential_sum example_now example_now
          (example_feed (Inr odd_history)) ''KO'')
     = Some (float64 (33 / 100))
   \<and> float64 (33 / 100) \<noteq> float64 (333 / 1000)
   \<and> float64 (33 / 100) \<noteq> 333 / 1000"
proof -
  have s: "DatetimeSeries (Some ''America/New_York'') (rows_of odd_history) = odd_history"
    by (simp add: odd_history_def)
  obtain m where g: "get_asset_metrics sequential_sum example_now example_now
      (example_feed (Inr odd_history)) ''KO'' = Some m"
    using example_metrics_ok [of sequential_sum example_now example_now
        "Some ''America/New_York''" "rows_of odd_history"] s
    by auto
  have "get_asset_metrics sequential_sum example_now example_now
      (example_feed (Inr (DatetimeSeries (Some ''America/New_York'') (rows_of odd_history))))
      ''KO'' = Some m"
    using g s by simp
  from example_metrics_fields(1) [OF this]
  have "annual_dividend m = float64 (33 / 100)"
    by (simp add: odd_window sum_routine_def odd_sum odd_round)
  moreover have "float64 (33 / 100) \<noteq> 333 / 1000"
    by (simp add: float_eval)
  ultimately show ?thesis using g odd_window odd_differs by simp
qed

section \<open>Properties of the calendar aggregation\<close>

lemma upto_1_12: "[1..12] = [1, 2, 3, 4, 5, 6, 7, 8, 9, 10, 11, 12::int]"
  by code_simp

lemma initial_calendar_keys: "well_keyed initial_calendar"
  by (simp add: well_keyed_def initial_calendar_def upto_1_12)

lemma well_keyed_keys: "well_keyed cal \<Longrightarrow> fst ` set cal = {1..12}"
proof -
  assume "well_keyed cal"
  then have "set (map fst cal) = set [1..12]" by (simp add: well_keyed_def upto_1_12)
  then show ?thesis by simp
qed

lemma well_keyed_distinct: "well_keyed cal \<Longrightarrow> distinct (map fst cal)"
  by (simp add: well_keyed_def)

lemma parse_loop_valid:
  "set acc \<subseteq> {1..12} \<Longrightarrow> set (parse_loop ms acc) \<subseteq> {1..12}"
  by (induction ms arbitrary: acc) (auto simp: Let_def)

lemma parse_payment_months_valid: "set (parse_payment_months s) \<subseteq> {1..12}"
  using parse_loop_valid [of "[]" "split_comma (strip s)"]
  by (simp add: parse_payment_months_def)

lemma validate_loop_valid:
  "set acc \<subseteq> {1..12} \<Longrightarrow> set (validate_loop l acc) \<subseteq> {1..12}"
proof (induction l arbitrary: acc)
  case Nil
  then show ?case by simp
next
  case (Cons v l)
  then show ?case by (cases v) (auto simp: Let_def)
qed

lemma stored_None: "stored_payment_months None = []"
  by (simp add: stored_payment_months_def months_truthy_def)

lemma stored_MonthsStr:
  "stored_payment_months (Some (MonthsStr s)) = (if s \<noteq> [] then parse_payment_months s else [])"
  by (simp add: stored_payment_months_def months_truthy_def)

lemma stored_MonthsList:
  "stored_payment_months (Some (MonthsList l)) = (if l \<noteq> [] then validate_loop l [] else [])"
  by (simp add: stored_payment_months_def months_truthy_def)

lemma stored_MonthsOther:
  "stored_payment_months (Some (MonthsOther t s)) = (if t then parse_payment_months s else [])"
  by (simp add: stored_payment_months_def months_truthy_def)

lemma stored_payment_months_valid: "set (stored_payment_months md) \<subseteq> {1..12}"
proof (cases md)
  case None
  then show ?thesis by (simp add: stored_None)
next
  case (Some d)
  then show ?thesis
    using parse_payment_months_valid validate_loop_valid [of "[]"]
    by (cases d) (simp_all add: stored_MonthsStr stored_MonthsList stored_MonthsOther, blast+)
qed

lemma dict_set_keys: "map fst (dict_set cal k v) = map fst cal"
  by (induction cal) (auto simp: dict_set_def)

lemma map_of_dict_set_gen:
  "map_of (dict_set cal k v) k'
     = (if k' = k then map_option (\<lambda>u. v) (map_of cal k) else map_of cal k')"
  by (induction cal) (auto simp: dict_set_def)

lemma map_of_dict_set:
  "map_of cal k = Some e \<Longrightarrow> map_of (dict_set cal k v) k' = (if k' = k then Some v else map_of cal k')"
  by (simp add: map_of_dict_set_gen)

lemma dict_set_Cons:
  "dict_set (kv # cal) k v = (if fst kv = k then (k, v) else kv) # dict_set cal k v"
  by (simp add: dict_set_def)

lemma dict_set_absent: "k \<notin> fst ` set cal \<Longrightarrow> dict_set cal k v = cal"
  by (induction cal) (auto simp: dict_set_def)

lemma sum_dict_set:
  fixes f :: "'p month_entry \<Rightarrow> 'a::comm_monoid_add"
  assumes "distinct (map fst cal)" "map_of cal k = Some e"
  shows "sum_list (map (\<lambda>kv. f (snd kv)) (dict_set cal k v)) + f e
           = sum_list (map (\<lambda>kv. f (snd kv)) cal) + f v"
  using assms
proof (induction cal)
  case Nil
  then show ?case by simp
next
  case (Cons kv cal)
  let ?g = "\<lambda>kv. f (snd kv)"
  show ?case
  proof (cases "fst kv = k")
    case True
    then have "k \<notin> fst ` set cal" using Cons.prems(1) by auto
    then have "dict_set cal k v = cal" by (rule dict_set_absent)
    moreover have "snd kv = e" using True Cons.prems(2) by (cases kv) auto
    ultimately show ?thesis using True
      by (simp add: dict_set_Cons add.commute add.left_commute)
  next
    case False
    then have "map_of cal k = Some e" using Cons.prems(2) by (cases kv) auto
    with Cons have ih: "sum_list (map ?g (dict_set cal k v)) + f e = sum_list (map ?g cal) + f v"
      by simp
    have "sum_list (map ?g (dict_set (kv # cal) k v)) + f e
            = f (snd kv) + (sum_list (map ?g (dict_set cal k v)) + f e)"
      using False by (simp add: dict_set_Cons add.assoc)
    also have "\<dots> = f (snd kv) + (sum_list (map ?g cal) + f v)"
      by (simp only: ih)
    also have "\<dots> = sum_list (map ?g (kv # cal)) + f v"
      by (simp add: add.assoc)
    finally show ?thesis .
  qed
qed

lemma list_all_dict_set:
  "list_all (\<lambda>kv. P (snd kv)) cal \<Longrightarrow> P v \<Longrightarrow> list_all (\<lambda>kv. P (snd kv)) (dict_set cal k v)"
  by (induction cal) (auto simp: dict_set_def)

lemma map_of_list_all:
  "map_of cal k = Some e \<Longrightarrow> list_all (\<lambda>kv. P (snd kv)) cal \<Longrightarrow> P e"
  using map_of_SomeD [of cal k e] by (force simp: list_all_iff)

lemma sum_list_amounts_nonneg:
  "list_all (\<lambda>p. 0 \<le> pay_amount p) ps \<Longrightarrow> 0 \<le> sum_list (map pay_amount ps)"
  by (induction ps) auto

text \<open>
  Adding a contribution to a month keeps its amount within one more rounding of the sum of
  its records.
\<close>

lemma month_ok_add:
  assumes "month_ok e" "0 \<le> pay_amount p"
  shows "month_ok (e\<lparr>amount := fadd (amount e) (pay_amount p), assets := assets e @ [p]\<rparr>)"
proof -
  let ?c = "length (assets e)"
  let ?r = "sum_list (map pay_amount (assets e))"
  from assms(1) have n: "list_all (\<lambda>p. 0 \<le> pay_amount p) (assets e)"
    and a: "near ?c (amount e) ?r"
    by (simp_all add: month_ok_def)
  have r: "0 \<le> ?r" using n by (rule sum_list_amounts_nonneg)
  have "near ?c (pay_amount p) (pay_amount p)"
    using near_refl assms(2) by (rule near_mono) simp
  with a have "near ?c (amount e + pay_amount p) (?r + pay_amount p)"
    by (rule near_add)
  then have "near (Suc ?c) (float64 (amount e + pay_amount p)) (?r + pay_amount p)"
    using r assms(2) by (intro near_float64) simp_all
  then show ?thesis using n assms(2) by (simp add: month_ok_def fadd_def)
qed

lemma add_payments_records:
  assumes "distinct (map fst cal)" "set ms \<subseteq> fst ` set cal"
    and "list_all (\<lambda>kv. month_ok (snd kv)) cal" "0 \<le> pay_amount p"
  shows "\<exists>cal'. add_payments cal ms (pay_amount p) p = Inr cal' \<and> map fst cal' = map fst cal
      \<and> list_all (\<lambda>kv. month_ok (snd kv)) cal'
      \<and> recorded_total cal' = recorded_total cal + real (length ms) * pay_amount p
      \<and> records cal' = records cal + length ms"
  using assms(1,2,3)
proof (induction ms arbitrary: cal)
  case Nil
  then show ?case by simp
next
  case (Cons m ms)
  from Cons.prems(2) have "m \<in> fst ` set cal" by simp
  then obtain e where e: "map_of cal m = Some e"
    by (metis domD dom_map_of_conv_image_fst)
  let ?e = "e\<lparr>amount := fadd (amount e) (pay_amount p), assets := assets e @ [p]\<rparr>"
  let ?cal1 = "dict_set cal m ?e"
  have k1: "map fst ?cal1 = map fst cal" by (rule dict_set_keys)
  have "month_ok e" using e Cons.prems(3) by (rule map_of_list_all)
  then have "month_ok ?e" using assms(4) by (rule month_ok_add)
  with Cons.prems(3) have ok1: "list_all (\<lambda>kv. month_ok (snd kv)) ?cal1"
    by (rule list_all_dict_set)
  have "distinct (map fst ?cal1)" "set ms \<subseteq> fst ` set ?cal1"
    using Cons.prems(1,2) k1 by (simp_all flip: set_map)
  from Cons.IH [OF this ok1] obtain cal' where
    c: "add_payments ?cal1 ms (pay_amount p) p = Inr cal'" "map fst cal' = map fst ?cal1"
       "list_all (\<lambda>kv. month_ok (snd kv)) cal'"
       "recorded_total cal' = recorded_total ?cal1 + real (length ms) * pay_amount p"
       "records cal' = records ?cal1 + length ms"
    by blast
  have "recorded_total ?cal1 + sum_list (map pay_amount (assets e))
          = recorded_total cal + sum_list (map pay_amount (assets ?e))"
    unfolding recorded_total_def
    using sum_dict_set [OF Cons.prems(1) e, of "\<lambda>e. sum_list (map pay_amount (assets e))" ?e] .
  then have r1: "recorded_total ?cal1 = recorded_total cal + pay_amount p" by simp
  have "records ?cal1 + length (assets e) = records cal + length (assets ?e)"
    unfolding records_def
    using sum_dict_set [OF Cons.prems(1) e, of "\<lambda>e. length (assets e)" ?e] .
  then have n1: "records ?cal1 = records cal + 1" by simp
  show ?case using c e k1 r1 n1 by (simp add: algebra_simps)
qed

lemma add_payments_map_of:
  "distinct ms \<Longrightarrow> set ms \<subseteq> fst ` set cal \<Longrightarrow> add_payments cal ms amt p = Inr cal' \<Longrightarrow>
   map_of cal k = Some e \<Longrightarrow>
   map_of cal' k = Some (if k \<in> set ms
                         then e\<lparr>amount := fadd (amount e) amt, assets := assets e @ [p]\<rparr> else e)"
proof (induction ms arbitrary: cal e)
  case Nil
  then show ?case by simp
next
  case (Cons m ms)
  from Cons.prems(2) have "m \<in> fst ` set cal" by simp
  then obtain em where em: "map_of cal m = Some em"
    by (metis domD dom_map_of_conv_image_fst)
  let ?cal1 = "dict_set cal m (em\<lparr>amount := fadd (amount em) amt, assets := assets em @ [p]\<rparr>)"
  have k1: "map fst ?cal1 = map fst cal" by (rule dict_set_keys)
  have d: "distinct ms" and s: "set ms \<subseteq> fst ` set ?cal1"
    using Cons.prems(1,2) k1 by (simp_all flip: set_map)
  have a: "add_payments ?cal1 ms amt p = Inr cal'"
    using Cons.prems(3) em by simp
  show ?case
  proof (cases "k = m")
    case True
    then have e1: "map_of ?cal1 k
        = Some (em\<lparr>amount := fadd (amount em) amt, assets := assets em @ [p]\<rparr>)"
      using map_of_dict_set [OF em] by simp
    have "k \<notin> set ms" using True Cons.prems(1) by simp
    moreover have "em = e" using True em Cons.prems(4) by simp
    ultimately show ?thesis using Cons.IH [OF d s a e1] True by simp
  next
    case False
    then have e1: "map_of ?cal1 k = Some e"
      using map_of_dict_set [OF em] Cons.prems(4) by simp
    show ?thesis using Cons.IH [OF d s a e1] False by simp
  qed
qed

lemma default_schedule_valid:
  "paying_label f \<Longrightarrow> default_schedule f \<noteq> [] \<and> distinct (default_schedule f)
     \<and> set (default_schedule f) \<subseteq> {1..12}"
  by (auto simp: paying_label_def default_schedule_def)

text \<open>The months over which a paying holding is spread, and what \<open>process_asset\<close> does with them.\<close>

lemma process_asset_skipped:
  "\<not> included sd a \<Longrightarrow> process_asset sd cal a = Inr cal"
  by (auto simp: included_def process_asset_def Let_def paying_label_def)

lemma process_asset_included:
  assumes "included sd a"
  shows "process_asset sd cal a =
     (let stored = stored_payment_months
                     (dict_get (asset_dividend_payment_months a) (MonthsStr []));
          ms = (if stored = [] then default_schedule (frequency_of a) else stored);
          per = fdiv (total_annual_dividend sd a) (float_of_int (int (length ms)))
      in add_payments cal ms per
           \<lparr>pay_symbol = asset_symbol a, pay_name = dict_get (asset_name a) (asset_symbol a),
            pay_amount = per, pay_shares = shares_of sd a\<rparr>)"
proof -
  from assms have s: "\<not> shares_of sd a \<le> 0" and t: "\<not> total_annual_dividend sd a \<le> 0"
    and p: "paying_label (frequency_of a)"
    by (simp_all add: included_def)
  from p consider "frequency_of a = Some ''mensual''" | "frequency_of a = Some ''trimestral''"
    | "frequency_of a = Some ''irregular''"
    by (auto simp: paying_label_def)
  then show ?thesis
  proof cases
    case 1
    then show ?thesis using s t
      by (simp add: process_asset_def Let_def distribute_def default_schedule_def upto_1_12)
  next
    case 2
    then show ?thesis using s t
      by (simp add: process_asset_def Let_def distribute_def default_schedule_def)
  next
    case 3
    then show ?thesis using s t
      by (simp add: process_asset_def Let_def distribute_def default_schedule_def)
  qed
qed

lemma effective_months_valid:
  assumes "paying_label f"
  shows "(if stored_payment_months md = [] then default_schedule f else stored_payment_months md) \<noteq> []"
    and "set (if stored_payment_months md = [] then default_schedule f else stored_payment_months md)
           \<subseteq> {1..12}"
  using default_schedule_valid [OF assms] stored_payment_months_valid [of md] by auto

text \<open>The rounding of a quotient, and of one payment of a holding.\<close>

lemma round_factor_products: "round_down * round_up \<le> 1" "1 \<le> round_down * round_up ^ 2"
  by (simp_all add: round_down_def round_up_def power2_eq_square)

lemma near_divide:
  assumes "near j x y" "near 1 d e" "0 < e" "0 \<le> y"
  shows "near (j + 2) (x / d) (y / e)"
proof -
  from assms(2) have d: "round_down * e \<le> d" "d \<le> round_up * e"
    by (simp_all add: near_def)
  have de: "0 < round_down * e" using assms(3) round_factors(1) by simp
  then have dpos: "0 < d" using d(1) by linarith
  have x: "0 \<le> x" using assms(1,4) by (rule near_nonneg)
  have ye: "0 \<le> y / e" using assms(3,4) by simp
  have "x / d \<le> x / (round_down * e)"
    using x de d(1) by (intro divide_left_mono) (simp_all add: dpos)
  also have "\<dots> \<le> (round_up ^ j * y) / (round_down * e)"
    using assms(1) de by (intro divide_right_mono) (simp_all add: near_def)
  also have "\<dots> = round_up ^ j * (y / e) * (1 / round_down)"
    by simp
  also have "\<dots> \<le> round_up ^ j * (y / e) * round_up ^ 2"
  proof -
    have "1 / round_down \<le> round_up ^ 2"
      using round_factor_products(2) round_factors(1) by (simp add: field_simps)
    moreover have "0 \<le> round_up ^ j * (y / e)"
      using round_factor_powers(2) ye by (rule mult_nonneg_nonneg)
    ultimately show ?thesis by (rule mult_left_mono)
  qed
  also have "\<dots> = round_up ^ (j + 2) * (y / e)"
    by (simp add: power_add power2_eq_square algebra_simps)
  finally have u: "x / d \<le> round_up ^ (j + 2) * (y / e)" .
  have ue: "0 < round_up * e" using assms(3) round_factors(4) by simp
  have "round_down ^ (j + 2) * (y / e) = round_down ^ j * (y / e) * (round_down * round_down)"
    by (simp add: power_add power2_eq_square algebra_simps)
  also have "\<dots> \<le> round_down ^ j * (y / e) * (1 / round_up)"
  proof -
    have "round_down * round_down \<le> round_down" using round_factors(1,2) by simp
    also have "\<dots> \<le> 1 / round_up"
      using round_factor_products(1) round_factors(4) by (simp add: field_simps)
    finally have "round_down * round_down \<le> 1 / round_up" .
    moreover have "0 \<le> round_down ^ j * (y / e)"
      using round_factor_powers(1) ye by (rule mult_nonneg_nonneg)
    ultimately show ?thesis by (rule mult_left_mono)
  qed
  also have "\<dots> = (round_down ^ j * y) / (round_up * e)" by simp
  also have "\<dots> \<le> x / (round_up * e)"
    using assms(1) ue by (intro divide_right_mono) (simp_all add: near_def)
  also have "\<dots> \<le> x / d"
    using x dpos d(2) by (intro divide_left_mono) (simp_all add: ue)
  finally have "round_down ^ (j + 2) * (y / e) \<le> x / d" .
  with u show ?thesis by (simp add: near_def)
qed

lemma per_payment_near:
  assumes "0 < s" "0 < a" "0 < n"
  shows "near 5 (real n * fdiv (fmul a (float_of_int s)) (float_of_int (int n)))
           (a * real_of_int s)"
    and "0 \<le> fdiv (fmul a (float_of_int s)) (float_of_int (int n))"
proof -
  let ?fs = "float_of_int s"
  let ?fn = "float_of_int (int n)"
  let ?t = "fmul a ?fs"
  have s: "(0::real) \<le> of_int s" "(0::real) \<le> a * of_int s" using assms by simp_all
  have "near 1 ?fs (of_int s)" unfolding float_of_int_def using s(1) by (rule float64_near)
  then have "near 1 (a * ?fs) (a * of_int s)" using assms(2) by (intro near_scale) simp_all
  then have "near (Suc 1) ?t (a * of_int s)"
    unfolding fmul_def using s(2) by (rule near_float64)
  then have t: "near 2 ?t (a * of_int s)" by (simp add: numeral_2_eq_2)
  have n: "near 1 ?fn (real n)"
    unfolding float_of_int_def using float64_near [of "real n"] by simp
  have "near (2 + 2) (?t / ?fn) (a * of_int s / real n)"
    using t n by (rule near_divide) (use assms(3) s(2) in simp_all)
  then have q: "near 4 (?t / ?fn) (a * of_int s / real n)" by simp
  have qn: "0 \<le> a * of_int s / real n" using s(2) by simp
  have "near (Suc 4) (fdiv ?t ?fn) (a * of_int s / real n)"
    unfolding fdiv_def using q qn by (rule near_float64)
  then have p: "near 5 (fdiv ?t ?fn) (a * of_int s / real n)" by simp
  then have "near 5 (real n * fdiv ?t ?fn) (real n * (a * of_int s / real n))"
    by (intro near_scale) simp_all
  then show "near 5 (real n * fdiv ?t ?fn) (a * real_of_int s)"
    using assms(3) by simp
  show "0 \<le> fdiv ?t ?fn" using p qn by (rule near_nonneg)
qed

text \<open>
  Over the four labels the code's test of inclusion is the one of the specification: the
  float of a product is positive exactly when the product is.
\<close>

lemma included_positive:
  assumes "included sd a"
  shows "0 < shares_of sd a" "0 < annual_dividend_per_share a" "0 < exact_annual sd a"
proof -
  from assms show s: "0 < shares_of sd a" by (simp add: included_def)
  then have "0 < float_of_int (shares_of sd a)"
    by (simp add: float_of_int_def float64_pos_iff)
  moreover from assms have "0 < annual_dividend_per_share a * float_of_int (shares_of sd a)"
    by (simp add: included_def total_annual_dividend_def fmul_def float64_pos_iff)
  ultimately show a: "0 < annual_dividend_per_share a"
    by (simp add: zero_less_mult_iff)
  show "0 < exact_annual sd a" using s a by (simp add: exact_annual_def)
qed


lemma process_asset_records:
  assumes "well_keyed cal" "list_all (\<lambda>kv. month_ok (snd kv)) cal"
  shows "\<exists>cal'. process_asset sd cal a = Inr cal' \<and> well_keyed cal'
          \<and> list_all (\<lambda>kv. month_ok (snd kv)) cal'
          \<and> near 5 (recorded_total cal' - recorded_total cal)
                (if included sd a then exact_annual sd a else 0)"
proof (cases "included sd a")
  case False
  then show ?thesis using assms by (simp add: process_asset_skipped near_zero)
next
  case True
  then have p: "paying_label (frequency_of a)" by (simp add: included_def)
  let ?md = "dict_get (asset_dividend_payment_months a) (MonthsStr [])"
  let ?ms = "if stored_payment_months ?md = [] then default_schedule (frequency_of a)
             else stored_payment_months ?md"
  let ?per = "fdiv (total_annual_dividend sd a) (float_of_int (int (length ?ms)))"
  let ?p = "\<lparr>pay_symbol = asset_symbol a, pay_name = dict_get (asset_name a) (asset_symbol a),
            pay_amount = ?per, pay_shares = shares_of sd a\<rparr>"
  have ne: "?ms \<noteq> []" and v: "set ?ms \<subseteq> {1..12}"
    using effective_months_valid [OF p, of ?md] by blast+
  then have l: "0 < length ?ms" by simp
  have keys: "set ?ms \<subseteq> fst ` set cal"
    using v well_keyed_keys [OF assms(1)] by simp
  have pn: "near 5 (real (length ?ms) * ?per) (exact_annual sd a)" and pp: "0 \<le> ?per"
    using per_payment_near [OF included_positive(1,2) [OF True] l]
    by (simp_all add: total_annual_dividend_def exact_annual_def)
  have "0 \<le> pay_amount ?p" using pp by simp
  from add_payments_records [OF well_keyed_distinct [OF assms(1)] keys assms(2) this]
  obtain cal' where c: "add_payments cal ?ms ?per ?p = Inr cal'" "map fst cal' = map fst cal"
    "list_all (\<lambda>kv. month_ok (snd kv)) cal'"
    "recorded_total cal' = recorded_total cal + real (length ?ms) * ?per"
    by auto
  have "well_keyed cal'" using c(2) assms(1) by (simp add: well_keyed_def)
  moreover have "process_asset sd cal a = Inr cal'"
    using process_asset_included [OF True, of cal] c(1) by (simp add: Let_def)
  moreover have "near 5 (recorded_total cal' - recorded_total cal) (exact_annual sd a)"
    using pn c(4) by simp
  ultimately show ?thesis using True c(3) by simp
qed

lemma assets_loop_records:
  assumes "well_keyed cal" "list_all (\<lambda>kv. month_ok (snd kv)) cal"
  shows "\<exists>cal'. assets_loop sd cal asset_list = Inr cal' \<and> well_keyed cal'
      \<and> list_all (\<lambda>kv. month_ok (snd kv)) cal'
      \<and> near 5 (recorded_total cal' - recorded_total cal)
            (sum_list (map (exact_annual sd) (filter (included sd) asset_list)))"
  using assms
proof (induction asset_list arbitrary: cal)
  case Nil
  then show ?case by (simp add: near_zero)
next
  case (Cons a rest)
  from process_asset_records [OF Cons.prems, of sd a] obtain cal1 where
    c1: "process_asset sd cal a = Inr cal1" "well_keyed cal1"
      "list_all (\<lambda>kv. month_ok (snd kv)) cal1"
      "near 5 (recorded_total cal1 - recorded_total cal)
         (if included sd a then exact_annual sd a else 0)"
    by blast
  from Cons.IH [OF c1(2,3)] obtain cal' where
    c2: "assets_loop sd cal1 rest = Inr cal'" "well_keyed cal'"
      "list_all (\<lambda>kv. month_ok (snd kv)) cal'"
      "near 5 (recorded_total cal' - recorded_total cal1)
         (sum_list (map (exact_annual sd) (filter (included sd) rest)))"
    by blast
  have e1: "recorded_total cal' - recorded_total cal
      = (recorded_total cal1 - recorded_total cal) + (recorded_total cal' - recorded_total cal1)"
    by simp
  have e2: "sum_list (map (exact_annual sd) (filter (included sd) (a # rest)))
      = (if included sd a then exact_annual sd a else 0)
        + sum_list (map (exact_annual sd) (filter (included sd) rest))"
    by simp
  have "near 5 (recorded_total cal' - recorded_total cal)
      (sum_list (map (exact_annual sd) (filter (included sd) (a # rest))))"
    unfolding e1 e2 using c1(4) c2(4) by (rule near_add)
  then show ?case using c1(1) c2(1,2,3) by simp
qed

lemma assets_loop_append:
  "assets_loop sd cal (xs @ ys) =
     (case assets_loop sd cal xs of Inl e \<Rightarrow> Inl e | Inr cal' \<Rightarrow> assets_loop sd cal' ys)"
  by (induction xs arbitrary: cal) (auto split: sum.splits)

lemma initial_calendar_ok:
  "list_all (\<lambda>kv. month_ok (snd kv)) initial_calendar" "recorded_total initial_calendar = 0"
  by (simp_all add: initial_calendar_def upto_1_12 month_ok_def near_zero recorded_total_def)





lemma calculate_records:
  "\<exists>cal. calculate_monthly_dividends ss asset_list sdo = Inr cal \<and> well_keyed cal
     \<and> list_all (\<lambda>kv. month_ok (snd kv)) cal
     \<and> near 5 (recorded_total cal)
         (sum_list (map (exact_annual (get_or sdo ss)) (filter (included (get_or sdo ss)) asset_list)))"
proof -
  have "(case sdo of None \<Rightarrow> ss | Some d \<Rightarrow> d) = get_or sdo ss"
    by (simp add: get_or_def)
  then show ?thesis
    using assets_loop_records [OF initial_calendar_keys initial_calendar_ok(1),
        of "get_or sdo ss" asset_list]
    by (simp add: calculate_monthly_dividends_def initial_calendar_ok(2))
qed

lemma calculate_total:
  "\<exists>cal. calculate_monthly_dividends ss asset_list sdo = Inr cal \<and> well_keyed cal"
  using calculate_records [of ss asset_list sdo] by blast
text \<open>The example portfolios.\<close>

lemma example_asset_fields:
  "asset_symbol (example_asset f md) = ''KO''"
  "asset_name (example_asset f md) = Value ''Coca-Cola''"
  "asset_annual_dividend (example_asset f md) = Value 2"
  "asset_dividend_frequency (example_asset f md) = f"
  "asset_dividend_payment_months (example_asset f md) = md"
  by (simp_all add: example_asset_def)

lemma example_floats:
  "fmul 2 (float_of_int 100) = 200"
  "fdiv 200 (float_of_int 4) = 50"
  "fdiv 200 (float_of_int 12) = twelfth"
  "fadd 0 50 = 50"
  "fadd 0 twelfth = twelfth"
  by (simp_all add: float_eval twelfth_def)

lemma example_shares_of: "shares_of example_shares (example_asset f md) = 100"
  by (simp add: shares_of_def example_shares_def example_asset_fields get_or_def)

lemma example_per_share: "annual_dividend_per_share (example_asset f md) = 2"
  by (simp add: annual_dividend_per_share_def dict_get_def example_asset_fields)

lemma example_total: "total_annual_dividend example_shares (example_asset f md) = 200"
  by (simp add: total_annual_dividend_def example_shares_of example_per_share example_floats)


lemma example_frequency: "frequency_of (example_asset (Value f) md) = Some f"
  by (simp add: frequency_of_def dict_get_def example_asset_fields)

lemma example_stored:
  "stored_payment_months
     (dict_get (asset_dividend_payment_months (example_asset f PyNone)) (MonthsStr [])) = []"
  by (simp add: example_asset_fields dict_get_def stored_None)

lemma quarterly_included: "included example_shares quarterly_asset"
  by (simp add: included_def quarterly_asset_def example_shares_of example_total
      example_frequency paying_label_def)


lemma quarterly_stored:
  "stored_payment_months (dict_get (asset_dividend_payment_months quarterly_asset) (MonthsStr [])) = []"
  by (simp add: quarterly_asset_def example_stored)

lemma quarterly_fields:
  "frequency_of quarterly_asset = Some ''trimestral''"
  "total_annual_dividend example_shares quarterly_asset = 200"
  "shares_of example_shares quarterly_asset = 100"
  "asset_symbol quarterly_asset = ''KO''"
  "dict_get (asset_name quarterly_asset) ''KO'' = Some ''Coca-Cola''"
  by (simp_all add: quarterly_asset_def example_frequency example_total example_shares_of
      example_asset_fields dict_get_def)


lemma quarterly_process:
  "process_asset example_shares initial_calendar quarterly_asset = Inr quarterly_calendar"
proof -
  have "process_asset example_shares initial_calendar quarterly_asset
          = add_payments initial_calendar [3, 6, 9, 12] 50 example_payment"
    using process_asset_included [OF quarterly_included, of initial_calendar]
    by (simp add: quarterly_stored quarterly_fields default_schedule_def
        example_payment_def example_floats)
  also have "\<dots> = Inr quarterly_calendar"
    by (simp add: initial_calendar_def upto_1_12 dict_set_def quarterly_calendar_def
        empty_month_def paid_month_def example_floats)
  finally show ?thesis .
qed

lemma quarterly_calendar_eval:
  "calculate_monthly_dividends ss [quarterly_asset] (Some example_shares) = Inr quarterly_calendar"
  by (simp add: calculate_monthly_dividends_def quarterly_process)










text \<open>
  Claim C10. A holding whose cadence label is none of \<open>'mensual'\<close>, \<open>'trimestral'\<close>,
  \<open>'irregular'\<close>, \<open>'sin_dividendos'\<close> leaves the calendar as it was, whatever its shares
  and annual total, and no error is raised: the aggregation of a portfolio is the
  aggregation of the portfolio without that holding.
\<close>

theorem unknown_label_ignored:
  assumes "\<not> known_label (frequency_of a)"
  shows "process_asset sd cal a = Inr cal
       \<and> calculate_monthly_dividends ss (xs @ a # ys) sdo
           = calculate_monthly_dividends ss (xs @ ys) sdo"
proof -
  from assms have "\<not> included sd' a" for sd'
    by (simp add: known_label_def included_def)
  then have p: "process_asset sd' cal' a = Inr cal'" for sd' cal'
    by (rule process_asset_skipped)
  have "assets_loop sd' cal' (xs @ a # ys) = assets_loop sd' cal' (xs @ ys)" for sd' cal'
    by (simp add: assets_loop_append p split: sum.splits)
  then show ?thesis using p by (simp add: calculate_monthly_dividends_def)
qed

theorem unknown_label_ignored_witness:
  "\<not> known_label (frequency_of yearly_asset)
   \<and> 0 < shares_of example_shares yearly_asset
   \<and> 0 < total_annual_dividend example_shares yearly_asset
   \<and> process_asset example_shares quarterly_calendar yearly_asset = Inr quarterly_calendar
   \<and> calculate_monthly_dividends example_shares ([] @ yearly_asset # []) None
       = calculate_monthly_dividends example_shares ([] @ []) None"
proof -
  have k: "\<not> known_label (frequency_of yearly_asset)"
    by (simp add: yearly_asset_def example_frequency known_label_def paying_label_def)
  show ?thesis
    using unknown_label_ignored [OF k, of example_shares quarterly_calendar example_shares "[]" "[]" None] k
    by (simp add: yearly_asset_def example_shares_of example_total)
qed

lemma add_payments_keys:
  "set ms \<subseteq> fst ` set cal \<Longrightarrow>
   \<exists>cal'. add_payments cal ms amt p = Inr cal' \<and> map fst cal' = map fst cal"
proof (induction ms arbitrary: cal)
  case Nil
  then show ?case by simp
next
  case (Cons m ms)
  from Cons.prems have "m \<in> fst ` set cal" by simp
  then obtain e where e: "map_of cal m = Some e"
    by (metis domD dom_map_of_conv_image_fst)
  let ?cal1 = "dict_set cal m (e\<lparr>amount := fadd (amount e) amt, assets := assets e @ [p]\<rparr>)"
  have k1: "map fst ?cal1 = map fst cal" by (rule dict_set_keys)
  then have "set ms \<subseteq> fst ` set ?cal1"
    using Cons.prems by (simp flip: set_map)
  from Cons.IH [OF this] show ?case using e k1 by simp
qed

text \<open>
  Claim C6. For an included holding without stored payment months, the aggregator uses
  the default schedule of its cadence (all twelve months for \<open>'mensual'\<close>, 3, 6, 9, 12 for
  \<open>'trimestral'\<close>, 6 and 12 for \<open>'irregular'\<close>): each month of the schedule receives the
  annual total (the annual dividend per share times the shares) divided by the number of
  months of the schedule, with one contribution record of that amount, and every other
  month is unchanged. The product, the quotient and the addition are those of floats.
\<close>

theorem fallback_schedule:
  assumes "included sd a"
    and "stored_payment_months (dict_get (asset_dividend_payment_months a) (MonthsStr [])) = []"
    and "well_keyed cal"
  shows "\<exists>cal'. process_asset sd cal a = Inr cal' \<and> map fst cal' = map fst cal
     \<and> total_annual_dividend sd a
         = fmul (annual_dividend_per_share a) (float_of_int (shares_of sd a))
     \<and> (\<forall>k e. map_of cal k = Some e \<longrightarrow>
           map_of cal' k =
             Some (if k \<in> set (default_schedule (frequency_of a))
                   then e\<lparr>amount := fadd (amount e)
                               (fdiv (total_annual_dividend sd a)
                                  (float_of_int (int (length (default_schedule (frequency_of a)))))),
                          assets := assets e @
                            [\<lparr>pay_symbol = asset_symbol a,
                              pay_name = dict_get (asset_name a) (asset_symbol a),
                              pay_amount = fdiv (total_annual_dividend sd a)
                                  (float_of_int (int (length (default_schedule (frequency_of a))))),
                              pay_shares = shares_of sd a\<rparr>]\<rparr>
                   else e))"
proof -
  let ?ms = "default_schedule (frequency_of a)"
  let ?per = "fdiv (total_annual_dividend sd a) (float_of_int (int (length ?ms)))"
  let ?p = "\<lparr>pay_symbol = asset_symbol a, pay_name = dict_get (asset_name a) (asset_symbol a),
            pay_amount = ?per, pay_shares = shares_of sd a\<rparr>"
  from assms(1) have "paying_label (frequency_of a)" by (simp add: included_def)
  from default_schedule_valid [OF this]
  have d: "distinct ?ms" and v: "set ?ms \<subseteq> {1..12}" by simp_all
  have s: "set ?ms \<subseteq> fst ` set cal"
    using v well_keyed_keys [OF assms(3)] by simp
  have pa: "process_asset sd cal a = add_payments cal ?ms ?per ?p"
    using process_asset_included [OF assms(1), of cal] assms(2) by (simp add: Let_def)
  from add_payments_keys [OF s, of ?per ?p]
  obtain cal' where c: "add_payments cal ?ms ?per ?p = Inr cal'" "map fst cal' = map fst cal"
    by blast
  have "map_of cal' k = Some (if k \<in> set ?ms
          then e\<lparr>amount := fadd (amount e) ?per, assets := assets e @ [?p]\<rparr> else e)"
    if "map_of cal k = Some e" for k e
    using add_payments_map_of [OF d s c(1) that] .
  moreover have "process_asset sd cal a = Inr cal'"
    using pa c(1) by simp
  ultimately show ?thesis
    using c(2) by (intro exI [of _ cal']) (simp add: total_annual_dividend_def)
qed

theorem fallback_schedule_witness:
  "included example_shares quarterly_asset
   \<and> well_keyed initial_calendar
   \<and> total_annual_dividend example_shares quarterly_asset = 200
   \<and> (\<exists>cal'. process_asset example_shares initial_calendar quarterly_asset = Inr cal'
         \<and> map_of cal' 3 = Some paid_month \<and> map_of cal' 4 = Some empty_month)
   \<and> amount paid_month = 50"
proof -
  from fallback_schedule [OF quarterly_included quarterly_stored initial_calendar_keys]
  obtain cal' where c: "process_asset example_shares initial_calendar quarterly_asset = Inr cal'"
    and m: "\<And>k e. map_of initial_calendar k = Some e \<Longrightarrow>
           map_of cal' k =
             Some (if k \<in> set (default_schedule (frequency_of quarterly_asset))
                   then e\<lparr>amount := fadd (amount e)
                               (fdiv (total_annual_dividend example_shares quarterly_asset)
                                  (float_of_int (int (length (default_schedule (frequency_of quarterly_asset)))))),
                          assets := assets e @
                            [\<lparr>pay_symbol = asset_symbol quarterly_asset,
                              pay_name = dict_get (asset_name quarterly_asset) (asset_symbol quarterly_asset),
                              pay_amount = fdiv (total_annual_dividend example_shares quarterly_asset)
                                  (float_of_int (int (length (default_schedule (frequency_of quarterly_asset))))),
                              pay_shares = shares_of example_shares quarterly_asset\<rparr>]\<rparr>
                   else e)"
    by blast
  have i3: "map_of initial_calendar 3 = Some empty_month"
    and i4: "map_of initial_calendar 4 = Some empty_month"
    by (simp_all add: initial_calendar_def upto_1_12 empty_month_def)
  have f: "default_schedule (frequency_of quarterly_asset) = [3, 6, 9, 12]"
    by (simp add: quarterly_asset_def example_frequency default_schedule_def)
  have q: "total_annual_dividend example_shares quarterly_asset = 200"
    "shares_of example_shares quarterly_asset = 100"
    "asset_symbol quarterly_asset = ''KO''"
    "dict_get (asset_name quarterly_asset) ''KO'' = Some ''Coca-Cola''"
    by (simp_all add: quarterly_asset_def example_total example_shares_of example_asset_fields
        dict_get_def)
  have "map_of cal' 3 = Some paid_month"
    using m [OF i3]
    by (simp add: f q paid_month_def empty_month_def example_payment_def example_floats)
  moreover have "map_of cal' 4 = Some empty_month"
    using m [OF i4] by (simp add: f)
  moreover have "amount paid_month = 50" by (simp add: paid_month_def)
  ultimately show ?thesis
    using c q(1) quarterly_included initial_calendar_keys by simp
qed

text \<open>The taxes.\<close>

lemma apply_tax_fields:
  "pay_symbol (apply_tax rates p) = pay_symbol p"
  "pay_name (apply_tax rates p) = pay_name p"
  "pay_shares (apply_tax rates p) = pay_shares p"
  "amount_before_tax (apply_tax rates p) = pay_amount p"
  "tax_rate (apply_tax rates p) = get_or (rates (pay_symbol p)) 0"
  "tax_amount (apply_tax rates p)
     = fmul (pay_amount p) (fdiv (get_or (rates (pay_symbol p)) 0) 100)"
  "pay_amount (apply_tax rates p)
     = fsub (pay_amount p) (fmul (pay_amount p) (fdiv (get_or (rates (pay_symbol p)) 0) 100))"
  by (simp_all add: apply_tax_def Let_def)

lemma apply_tax_taxed_as: "taxed_as rates p (apply_tax rates p)"
  by (simp add: taxed_as_def apply_tax_fields)

lemma apply_taxes_keys: "map fst (apply_taxes ssum rates md) = map fst md"
  by (simp add: apply_taxes_def Let_def comp_def)

lemma apply_taxes_months:
  "list_all2
     (\<lambda>m t. list_all2 (taxed_as rates) (assets (snd m)) (assets (snd t))
          \<and> amount (snd t) = sum_routine ssum (map pay_amount (assets (snd t))))
     md (apply_taxes ssum rates md)"
  by (simp add: apply_taxes_def Let_def list_all2_map2 list_all2_same apply_tax_taxed_as)

lemma portfolio_calendar_tab_result:
  assumes "portfolio_calendar_tab ssum st all_assets = Inr (Some cal)"
  shows "\<exists>md. calculate_monthly_dividends (portfolio_shares st)
                 (filter (\<lambda>a. asset_symbol a \<in> set (portfolio_selected st)) all_assets)
                 (Some (portfolio_shares st)) = Inr md
              \<and> cal = apply_taxes ssum (portfolio_tax_rates st) md"
  using assms
  by (auto simp: portfolio_calendar_tab_def Let_def split: if_splits sum.splits)

lemma portfolio_calendar_tab_total: "\<not> isl (portfolio_calendar_tab ssum st all_assets)"
proof -
  obtain md where "calculate_monthly_dividends (portfolio_shares st)
                 (filter (\<lambda>a. asset_symbol a \<in> set (portfolio_selected st)) all_assets)
                 (Some (portfolio_shares st)) = Inr md"
    using calculate_total by blast
  then show ?thesis
    by (simp add: portfolio_calendar_tab_def Let_def)
qed

lemma tax_floats:
  "fmul 50 (fdiv 15 100) = 15 / 2"
  "fsub 50 (15 / 2) = 85 / 2"
  "sequential_sum [85 / 2] = 85 / 2"
  "fmul 50 (fdiv 150 100) = 75"
  "fsub 50 75 = - 25"
  by (simp_all add: float_eval)

lemma example_tax: "apply_tax example_tax_rates example_payment = taxed_payment_15"
  by (simp add: apply_tax_def Let_def example_payment_def example_tax_rates_def get_or_def
      taxed_payment_15_def tax_floats)

lemma taxed_payment_15_fields:
  "amount_before_tax taxed_payment_15 = 50"
  "tax_rate taxed_payment_15 = 15"
  "tax_amount taxed_payment_15 = 15 / 2"
  "pay_amount taxed_payment_15 = 85 / 2"
  by (simp_all add: taxed_payment_15_def)

lemma example_taxes:
  "apply_taxes sequential_sum example_tax_rates quarterly_calendar = taxed_quarterly_calendar"
  by (simp add: apply_taxes_def quarterly_calendar_def taxed_quarterly_calendar_def
      paid_month_def empty_month_def taxed_paid_month_def taxed_empty_month_def
      sum_routine_def example_tax taxed_payment_15_fields tax_floats)

lemma example_tab:
  "portfolio_calendar_tab ssum (example_session rates) [quarterly_asset]
     = Inr (Some (apply_taxes ssum rates quarterly_calendar))"
proof -
  have y: "asset_symbol quarterly_asset = ''KO''"
    by (simp add: quarterly_asset_def example_asset_fields)
  have s: "example_shares ''KO'' = Some 100"
    by (simp add: example_shares_def)
  show ?thesis
    by (simp add: portfolio_calendar_tab_def example_session_def y s quarterly_calendar_eval
        get_or_def)
qed

lemma example_taxed_tab:
  "portfolio_calendar_tab sequential_sum (example_session example_tax_rates) [quarterly_asset]
     = Inr (Some taxed_quarterly_calendar)"
  by (simp add: example_tab example_taxes)

text \<open>
  Claim C5, as amended. The calendar that \<open>_portfolio_calendar_tab\<close> hands to the display
  has the twelve months of the aggregated calendar, and every contribution record of
  every month of the aggregated calendar has its taxed record there, in the same place:
  the gross amount is the amount of the aggregation, the rate the tax rate of the holding
  (0 when none is set), the tax is the float product of the gross amount and the float
  quotient rate / 100, and the net amount is the float difference of the gross amount and
  the tax; the amount of the month is Python's sum of the net amounts.
\<close>

theorem tax_correct:
  assumes "portfolio_calendar_tab builtin_sum st all_assets = Inr (Some cal)"
  shows "\<exists>md. calculate_monthly_dividends (portfolio_shares st)
                 (filter (\<lambda>a. asset_symbol a \<in> set (portfolio_selected st)) all_assets)
                 (Some (portfolio_shares st)) = Inr md
          \<and> well_keyed md \<and> well_keyed cal
          \<and> list_all2
              (\<lambda>m t. list_all2 (taxed_as (portfolio_tax_rates st)) (assets (snd m)) (assets (snd t))
                    \<and> amount (snd t) = sum_routine builtin_sum (map pay_amount (assets (snd t))))
              md cal"
proof -
  let ?sel = "filter (\<lambda>a. asset_symbol a \<in> set (portfolio_selected st)) all_assets"
  from portfolio_calendar_tab_result [OF assms] obtain md where
    md: "calculate_monthly_dividends (portfolio_shares st) ?sel (Some (portfolio_shares st))
           = Inr md"
    and cal: "cal = apply_taxes builtin_sum (portfolio_tax_rates st) md"
    by blast
  from calculate_total [of "portfolio_shares st" ?sel "Some (portfolio_shares st)"] md
  have w: "well_keyed md" by simp
  then have "well_keyed cal"
    using cal by (simp add: well_keyed_def apply_taxes_keys)
  with md w show ?thesis
    unfolding cal using apply_taxes_months by blast
qed

theorem tax_correct_witness:
  "portfolio_calendar_tab sequential_sum (example_session example_tax_rates) [quarterly_asset]
     = Inr (Some taxed_quarterly_calendar)
   \<and> calculate_monthly_dividends example_shares [quarterly_asset] (Some example_shares)
       = Inr quarterly_calendar
   \<and> map_of quarterly_calendar 3 = Some paid_month
   \<and> map_of taxed_quarterly_calendar 3 = Some taxed_paid_month
   \<and> assets paid_month = [example_payment]
   \<and> assets taxed_paid_month = [taxed_payment_15]
   \<and> taxed_as example_tax_rates example_payment taxed_payment_15
   \<and> pay_amount example_payment = 50
   \<and> amount_before_tax taxed_payment_15 = 50
   \<and> tax_rate taxed_payment_15 = 15
   \<and> tax_amount taxed_payment_15 = 15 / 2
   \<and> pay_amount taxed_payment_15 = 85 / 2
   \<and> amount taxed_paid_month = 85 / 2"
proof -
  from tax_correct [OF example_taxed_tab] obtain md where
    md: "calculate_monthly_dividends (portfolio_shares (example_session example_tax_rates))
           (filter (\<lambda>a. asset_symbol a \<in> set (portfolio_selected (example_session example_tax_rates)))
              [quarterly_asset])
           (Some (portfolio_shares (example_session example_tax_rates))) = Inr md"
    and t: "list_all2
              (\<lambda>m t. list_all2 (taxed_as (portfolio_tax_rates (example_session example_tax_rates)))
                       (assets (snd m)) (assets (snd t))
                    \<and> amount (snd t) = sum_routine sequential_sum (map pay_amount (assets (snd t))))
              md taxed_quarterly_calendar"
    by blast
  have y: "asset_symbol quarterly_asset = ''KO''"
    by (simp add: quarterly_asset_def example_asset_fields)
  have "md = quarterly_calendar"
    using md by (simp add: example_session_def y quarterly_calendar_eval)
  then have "taxed_as example_tax_rates example_payment taxed_payment_15"
    using t
    by (simp add: quarterly_calendar_def taxed_quarterly_calendar_def paid_month_def
        taxed_paid_month_def example_session_def)
  then show ?thesis
    by (simp add: example_taxed_tab quarterly_calendar_eval taxed_payment_15_fields)
      (simp add: quarterly_calendar_def taxed_quarterly_calendar_def paid_month_def
        taxed_paid_month_def example_payment_def)
qed

text \<open>One share of the asset paying 222.69 in June, taxed at 72.2 percent.\<close>

lemma june_values:
  "june_gross = float64 (22269 / 100)"
  "june_rate = float64 (722 / 10)"
  by (simp_all add: float_eval june_gross_def june_rate_def)

lemma june_floats:
  "fmul june_gross (float_of_int 1) = june_gross"
  "fdiv june_gross (float_of_int 1) = june_gross"
  "fadd 0 june_gross = june_gross"
  "fmul june_gross (fdiv june_rate 100) = june_tax"
  "fsub june_gross june_tax = june_net"
  "sequential_sum [june_net] = june_net"
  by (simp_all add: float_eval june_gross_def june_rate_def june_tax_def june_net_def)

lemma june_formula:
  "fdiv (fmul june_gross june_rate) 100 = 5657020046373563 / 35184372088832"
  "fsub june_gross (fdiv (fmul june_gross june_rate) 100) = 2178187774088435 / 35184372088832"
  by (simp_all add: float_eval june_gross_def june_rate_def)

lemma june_asset_fields:
  "asset_symbol june_asset = ''KO''"
  "shares_of one_share june_asset = 1"
  "annual_dividend_per_share june_asset = june_gross"
  "frequency_of june_asset = Some ''irregular''"
  "dict_get (asset_name june_asset) ''KO'' = Some ''Coca-Cola''"
  "stored_payment_months (dict_get (asset_dividend_payment_months june_asset) (MonthsStr []))
     = [6]"
proof -
  have "june_gross \<noteq> 0" by (simp add: june_gross_def)
  then show "annual_dividend_per_share june_asset = june_gross"
    by (simp add: annual_dividend_per_share_def dict_get_def june_asset_def)
qed (simp_all add: june_asset_def shares_of_def one_share_def get_or_def frequency_of_def
    dict_get_def stored_MonthsList)

lemma june_total: "total_annual_dividend one_share june_asset = june_gross"
  by (simp add: total_annual_dividend_def june_asset_fields june_floats)

lemma june_included: "included one_share june_asset"
proof -
  have "0 < june_gross" by (simp add: june_gross_def)
  then show ?thesis
    by (simp add: included_def june_asset_fields june_total paying_label_def)
qed

lemma june_calendar_eval:
  "calculate_monthly_dividends ss [june_asset] (Some one_share) = Inr june_calendar"
proof -
  have "process_asset one_share initial_calendar june_asset
          = add_payments initial_calendar [6] june_gross june_payment"
    using process_asset_included [OF june_included, of initial_calendar]
    by (simp add: june_asset_fields june_total june_floats june_payment_def)
  also have "\<dots> = Inr june_calendar"
    by (simp add: initial_calendar_def upto_1_12 dict_set_def june_calendar_def
        empty_month_def june_floats)
  finally show ?thesis
    by (simp add: calculate_monthly_dividends_def)
qed

lemma june_tax_eval: "apply_tax june_tax_rates june_payment = june_taxed_payment"
  by (simp add: apply_tax_def Let_def june_payment_def june_tax_rates_def get_or_def
      june_taxed_payment_def june_floats)

lemma june_taxed_payment_fields:
  "amount_before_tax june_taxed_payment = june_gross"
  "tax_rate june_taxed_payment = june_rate"
  "tax_amount june_taxed_payment = june_tax"
  "pay_amount june_taxed_payment = june_net"
  by (simp_all add: june_taxed_payment_def)

lemma june_taxes:
  "apply_taxes sequential_sum june_tax_rates june_calendar = june_taxed_calendar"
  by (simp add: apply_taxes_def june_calendar_def june_taxed_calendar_def upto_1_12
      empty_month_def taxed_empty_month_def sum_routine_def june_tax_eval
      june_taxed_payment_fields june_floats)

lemma june_tab:
  "portfolio_calendar_tab sequential_sum june_session [june_asset]
     = Inr (Some june_taxed_calendar)"
proof -
  have s: "one_share ''KO'' = Some 1"
    by (simp add: one_share_def)
  show ?thesis
    by (simp add: portfolio_calendar_tab_def june_session_def june_asset_fields s
        june_calendar_eval get_or_def june_taxes)
qed

text \<open>
  Claim C5 as stated fails on the floats of the code. One share of an asset paying
  222.69 a year in June, taxed at 72.2 percent: the code computes the tax as
  222.69 * (72.2 / 100) = 160.78217999999998 and the net amount 61.907820000000015, where
  222.69 * 72.2 / 100 is 160.78218 and 222.69 - 222.69 * 72.2 / 100 is
  61.90781999999999, in floats, and neither is the exact value.
\<close>

theorem tax_formula_counterexample:
  "portfolio_calendar_tab sequential_sum june_session [june_asset]
     = Inr (Some june_taxed_calendar)
   \<and> map_of june_taxed_calendar 6 = Some \<lparr>amount = june_net, assets = [june_taxed_payment]\<rparr>
   \<and> june_gross = float64 (22269 / 100)
   \<and> june_rate = float64 (722 / 10)
   \<and> amount_before_tax june_taxed_payment = june_gross
   \<and> tax_rate june_taxed_payment = june_rate
   \<and> tax_amount june_taxed_payment = 2828510023186781 / 17592186044416
   \<and> fdiv (fmul june_gross june_rate) 100 = 5657020046373563 / 35184372088832
   \<and> tax_amount june_taxed_payment \<noteq> fdiv (fmul june_gross june_rate) 100
   \<and> tax_amount june_taxed_payment \<noteq> june_gross * june_rate / 100
   \<and> pay_amount june_taxed_payment
       \<noteq> fsub june_gross (fdiv (fmul june_gross june_rate) 100)
   \<and> pay_amount june_taxed_payment \<noteq> june_gross - june_gross * june_rate / 100"
proof -
  have "map_of june_taxed_calendar 6
      = Some \<lparr>amount = june_net, assets = [june_taxed_payment]\<rparr>"
    by (simp add: june_taxed_calendar_def upto_1_12)
  moreover have "tax_amount june_taxed_payment = 2828510023186781 / 17592186044416"
    by (simp add: june_taxed_payment_fields june_tax_def)
  moreover have "tax_amount june_taxed_payment \<noteq> fdiv (fmul june_gross june_rate) 100"
    unfolding june_taxed_payment_fields june_formula(1) by (simp add: june_tax_def)
  moreover have "tax_amount june_taxed_payment \<noteq> june_gross * june_rate / 100"
    unfolding june_taxed_payment_fields
    by (simp add: june_tax_def june_gross_def june_rate_def)
  moreover have "pay_amount june_taxed_payment
       \<noteq> fsub june_gross (fdiv (fmul june_gross june_rate) 100)"
    unfolding june_taxed_payment_fields june_formula(2) by (simp add: june_net_def)
  moreover have "pay_amount june_taxed_payment \<noteq> june_gross - june_gross * june_rate / 100"
    unfolding june_taxed_payment_fields
    by (simp add: june_net_def june_gross_def june_rate_def)
  ultimately show ?thesis
    using june_tab june_values june_taxed_payment_fields(1,2) june_formula(1) by blast
qed

lemma validate_ints:
  "validate_loop (map PyInt ms) acc = acc @ filter (\<lambda>m. 1 \<le> m \<and> m \<le> 12) ms"
  by (induction ms arbitrary: acc) auto

lemma negative_shares_skipped:
  "shares_of sd a < 0 \<Longrightarrow> process_asset sd cal a = Inr cal"
  by (simp add: process_asset_def Let_def)

text \<open>
  Claim C3, as amended. The aggregation raises no validation error. A holding whose
  shares count is negative is skipped and the calendar left as it was; a tax rate is
  applied as it is given, also outside 0 to 100 (tax = gross * (rate / 100), net = gross -
  tax, in floats); the entries of a list of payment months outside 1 to 12 are dropped and
  the other entries kept.
\<close>

theorem invalid_input_not_rejected:
  "(shares_of sd a < 0 \<longrightarrow> process_asset sd cal a = Inr cal)
   \<and> (\<exists>cal'. calculate_monthly_dividends ss asset_list sdo = Inr cal')
   \<and> \<not> isl (portfolio_calendar_tab builtin_sum st all_assets)
   \<and> stored_payment_months (Some (MonthsList (map PyInt ms)))
        = filter (\<lambda>m. 1 \<le> m \<and> m \<le> 12) ms
   \<and> tax_amount (apply_tax rates p)
        = fmul (pay_amount p) (fdiv (get_or (rates (pay_symbol p)) 0) 100)
   \<and> pay_amount (apply_tax rates p)
        = fsub (pay_amount p) (fmul (pay_amount p) (fdiv (get_or (rates (pay_symbol p)) 0) 100))"
proof -
  have "\<exists>cal'. calculate_monthly_dividends ss asset_list sdo = Inr cal'"
    using calculate_total [of ss asset_list sdo] by blast
  moreover have "stored_payment_months (Some (MonthsList (map PyInt ms)))
        = filter (\<lambda>m. 1 \<le> m \<and> m \<le> 12) ms"
    by (simp add: stored_MonthsList validate_ints)
  ultimately show ?thesis
    using negative_shares_skipped [of sd a cal]
      portfolio_calendar_tab_total [of builtin_sum st all_assets]
    by (simp add: apply_tax_fields)
qed

lemma negative_example: "shares_of negative_shares quarterly_asset = - 5"
  by (simp add: shares_of_def negative_shares_def quarterly_asset_def example_asset_fields
      get_or_def)

lemma excessive_example:
  "tax_amount (apply_tax excessive_tax_rates example_payment) = 75"
  "pay_amount (apply_tax excessive_tax_rates example_payment) = - 25"
  by (simp_all add: apply_tax_fields example_payment_def excessive_tax_rates_def get_or_def
      tax_floats)

theorem invalid_input_not_rejected_witness:
  "shares_of negative_shares quarterly_asset < 0
   \<and> process_asset negative_shares quarterly_calendar quarterly_asset = Inr quarterly_calendar
   \<and> stored_payment_months (Some (MonthsList (map PyInt [13, 3]))) = [3]
   \<and> tax_amount (apply_tax excessive_tax_rates example_payment) = 75
   \<and> pay_amount (apply_tax excessive_tax_rates example_payment) = - 25"
  using invalid_input_not_rejected [of negative_shares quarterly_asset quarterly_calendar
      example_shares "[]" None sequential_sum "example_session excessive_tax_rates" "[]"
      "[13, 3]" excessive_tax_rates example_payment]
    negative_example
  by (simp add: example_payment_def excessive_tax_rates_def get_or_def tax_floats)

text \<open>
  Claim C3 as stated fails: negative shares, a stored month 13 and a tax rate of 150 all
  yield a calendar, not an error; the month 13 is dropped and the rate 150 gives a net
  amount of -25 for a gross amount of 50.
\<close>

theorem validation_error_counterexample:
  "calculate_monthly_dividends negative_shares [quarterly_asset] None = Inr initial_calendar
   \<and> stored_payment_months
        (dict_get (asset_dividend_payment_months bad_months_asset) (MonthsStr [])) = [3]
   \<and> \<not> isl (calculate_monthly_dividends example_shares [bad_months_asset] None)
   \<and> \<not> isl (portfolio_calendar_tab sequential_sum (example_session excessive_tax_rates)
               [quarterly_asset])
   \<and> pay_amount (apply_tax excessive_tax_rates example_payment) = - 25"
proof -
  have "process_asset negative_shares initial_calendar quarterly_asset = Inr initial_calendar"
    using negative_example by (simp add: negative_shares_skipped)
  then have a: "calculate_monthly_dividends negative_shares [quarterly_asset] None
      = Inr initial_calendar"
    by (simp add: calculate_monthly_dividends_def)
  have b: "stored_payment_months
        (dict_get (asset_dividend_payment_months bad_months_asset) (MonthsStr [])) = [3]"
    by (simp add: bad_months_asset_def example_asset_fields dict_get_def stored_MonthsList)
  obtain cal where "calculate_monthly_dividends example_shares [bad_months_asset] None = Inr cal"
    using calculate_total by blast
  then have c: "\<not> isl (calculate_monthly_dividends example_shares [bad_months_asset] None)"
    by simp
  show ?thesis
    using a b c portfolio_calendar_tab_total excessive_example(2) by simp
qed

end
